theory Spec2Isabelle
  imports Complex_Main "HOL-Library.Word" "HOL-Library.Monad_Syntax" "HOL-Library.Log_Nat"
begin

unbundle bit_operations_syntax

section \<open>Constants of the block layer and of the wire format\<close>

text \<open>
  \<^verbatim>\<open>BDRV_SECTOR_BITS\<close> and \<^verbatim>\<open>BDRV_SECTORS_PER_DIRTY_CHUNK\<close> are macros of the block
  layer's header, which is not among the sources at hand. They are parameters of the
  whole development; \<open>qemu_consts\<close> holds the values the block layer of this code base
  uses (512-byte sectors, 2048 sectors per dirty chunk). C integers of type
  \<^verbatim>\<open>int\<close> and \<^verbatim>\<open>int64_t\<close> are modelled as unbounded \<open>int\<close>: signed overflow is
  undefined in C, and the 64-bit header word is truncated where it is put on the wire.
  The one product of two \<^verbatim>\<open>int\<close>s that a large rate-limit window lets pass
  \<open>2\<^sup>3\<^sup>1\<close>, the guard of the loop of \<^verbatim>\<open>block_save_iterate\<close>, wraps around as the compiled
  code does (\<open>int32\<close>).
\<close>

type_synonym u8 = "8 word"

record bdrv_consts =
  BDRV_SECTOR_BITS :: nat
  BDRV_SECTORS_PER_DIRTY_CHUNK :: int

definition qemu_consts :: bdrv_consts where
  "qemu_consts = \<lparr>BDRV_SECTOR_BITS = 9, BDRV_SECTORS_PER_DIRTY_CHUNK = 2048\<rparr>"

definition BDRV_SECTOR_SIZE :: "bdrv_consts \<Rightarrow> int" where
  "BDRV_SECTOR_SIZE c = push_bit (BDRV_SECTOR_BITS c) 1"

definition BDRV_SECTOR_MASK :: "bdrv_consts \<Rightarrow> int" where
  "BDRV_SECTOR_MASK c = NOT (BDRV_SECTOR_SIZE c - 1)"

definition BLOCK_SIZE :: "bdrv_consts \<Rightarrow> int" where
  "BLOCK_SIZE c = push_bit (BDRV_SECTOR_BITS c) (BDRV_SECTORS_PER_DIRTY_CHUNK c)"

definition BLK_MIG_FLAG_DEVICE_BLOCK :: int where
  "BLK_MIG_FLAG_DEVICE_BLOCK = 0x01"

definition BLK_MIG_FLAG_EOS :: int where
  "BLK_MIG_FLAG_EOS = 0x02"

definition BLK_MIG_FLAG_PROGRESS :: int where
  "BLK_MIG_FLAG_PROGRESS = 0x04"

definition BLK_MIG_FLAG_ZERO_BLOCK :: int where
  "BLK_MIG_FLAG_ZERO_BLOCK = 0x08"

definition MAX_IS_ALLOCATED_SEARCH :: int where
  "MAX_IS_ALLOCATED_SEARCH = 65536"

definition EIO :: int where
  "EIO = 5"

definition EINVAL :: int where
  "EINVAL = 22"

definition int32 :: "int \<Rightarrow> int" where
  "int32 v = sint (word_of_int v :: 32 word)"

section \<open>Extended-precision floating point\<close>

text \<open>
  The file is written for x86 (it includes \<^verbatim>\<open>emmintrin.h\<close>), where \<^verbatim>\<open>long double\<close> is the
  80-bit extended format of the x87 unit: a sign, a 64-bit significand with an explicit
  leading bit, and a 15-bit exponent. \<open>Finite s m e\<close> is the number
  \<open>(-1)\<^sup>s * m * 2\<^sup>e\<close> with \<open>0 \<le> m < 2\<^sup>6\<^sup>4\<close>; a zero is \<open>Finite s 0 0\<close> and keeps its
  sign. The exponent of the last place ranges from \<open>ld_emin\<close> (the subnormal
  numbers) to \<open>ld_emax\<close>. Every operation takes the exact result and rounds it once,
  to the nearest number of the format and on a tie to the one with an even significand
  (the default rounding mode, at the default precision of 64 bits); a result of
  magnitude \<open>2\<^sup>1\<^sup>6\<^sup>3\<^sup>8\<^sup>4\<close> or more is an infinity, and an invalid operation yields \<open>NaN\<close>.

  \<open>ld_round s N D k\<close> rounds the exact value \<open>(-1)\<^sup>s * (N / D) * 2\<^sup>k\<close> (for \<open>0 \<le> N\<close> and
  \<open>0 < D\<close>): it finds the exponent \<open>e\<close> of the last place from the bit lengths of
  \<open>N\<close> and \<open>D\<close>, divides with remainder at that scale and rounds the quotient on the
  remainder.
\<close>

datatype ldouble = Finite bool int int | Infinite bool | NaN

definition ld_emin :: int where
  "ld_emin = - 16445"

definition ld_emax :: int where
  "ld_emax = 16320"

definition ld_scaled :: "int \<Rightarrow> int \<Rightarrow> int \<Rightarrow> int \<times> int" where
  "ld_scaled N D sh = (if 0 \<le> sh then (N * 2 ^ nat sh, D) else (N, D * 2 ^ nat (- sh)))"

definition ld_round :: "bool \<Rightarrow> int \<Rightarrow> int \<Rightarrow> int \<Rightarrow> ldouble" where
  "ld_round s N D k =
     (if N = 0 then Finite s 0 0
      else
        let e0 = max (bitlen N - bitlen D + k - 64) ld_emin;
            e = (case ld_scaled N D (k - e0) of
                   (num, den) \<Rightarrow> if 2 ^ 64 \<le> num div den then e0 + 1 else e0)
        in case ld_scaled N D (k - e) of
             (num, den) \<Rightarrow>
               let q = num div den;
                   r = num mod den;
                   m = (if den < 2 * r \<or> (2 * r = den \<and> q mod 2 = 1) then q + 1 else q)
               in if m = 0 then Finite s 0 0
                  else if m = 2 ^ 64
                  then (if ld_emax < e + 1 then Infinite s else Finite s (2 ^ 63) (e + 1))
                  else (if ld_emax < e then Infinite s else Finite s m e))"

text \<open>
  The conversion of an integer, and the arithmetic and the comparisons the file uses:
  \<^verbatim>\<open>-\<close>, \<^verbatim>\<open>+=\<close>, \<^verbatim>\<open>*\<close>, \<^verbatim>\<open>/\<close>, \<^verbatim>\<open>!= 0\<close> and \<^verbatim>\<open><=\<close>.
\<close>

definition ld_of_int :: "int \<Rightarrow> ldouble" where
  "ld_of_int n = ld_round (n < 0) \<bar>n\<bar> 1 0"

definition ld_signed :: "bool \<Rightarrow> int \<Rightarrow> int" where
  "ld_signed s m = (if s then - m else m)"

fun ld_neg :: "ldouble \<Rightarrow> ldouble" where
  "ld_neg (Finite s m e) = Finite (\<not> s) m e"
| "ld_neg (Infinite s) = Infinite (\<not> s)"
| "ld_neg NaN = NaN"

fun ld_add :: "ldouble \<Rightarrow> ldouble \<Rightarrow> ldouble" where
  "ld_add (Finite s1 m1 e1) (Finite s2 m2 e2) =
     (if m1 = 0 then (if m2 = 0 then Finite (s1 \<and> s2) 0 0 else Finite s2 m2 e2)
      else if m2 = 0 then Finite s1 m1 e1
      else
        let e = min e1 e2;
            z = ld_signed s1 m1 * 2 ^ nat (e1 - e) + ld_signed s2 m2 * 2 ^ nat (e2 - e)
        in if z = 0 then Finite False 0 0 else ld_round (z < 0) \<bar>z\<bar> 1 e)"
| "ld_add (Finite s1 m1 e1) (Infinite s2) = Infinite s2"
| "ld_add (Infinite s1) (Finite s2 m2 e2) = Infinite s1"
| "ld_add (Infinite s1) (Infinite s2) = (if s1 = s2 then Infinite s1 else NaN)"
| "ld_add NaN y = NaN"
| "ld_add x NaN = NaN"

definition ld_sub :: "ldouble \<Rightarrow> ldouble \<Rightarrow> ldouble" where
  "ld_sub x y = ld_add x (ld_neg y)"

fun ld_mul :: "ldouble \<Rightarrow> ldouble \<Rightarrow> ldouble" where
  "ld_mul (Finite s1 m1 e1) (Finite s2 m2 e2) = ld_round (s1 \<noteq> s2) (m1 * m2) 1 (e1 + e2)"
| "ld_mul (Finite s1 m1 e1) (Infinite s2) = (if m1 = 0 then NaN else Infinite (s1 \<noteq> s2))"
| "ld_mul (Infinite s1) (Finite s2 m2 e2) = (if m2 = 0 then NaN else Infinite (s1 \<noteq> s2))"
| "ld_mul (Infinite s1) (Infinite s2) = Infinite (s1 \<noteq> s2)"
| "ld_mul NaN y = NaN"
| "ld_mul x NaN = NaN"

fun ld_div :: "ldouble \<Rightarrow> ldouble \<Rightarrow> ldouble" where
  "ld_div (Finite s1 m1 e1) (Finite s2 m2 e2) =
     (if m2 = 0 then (if m1 = 0 then NaN else Infinite (s1 \<noteq> s2))
      else ld_round (s1 \<noteq> s2) m1 m2 (e1 - e2))"
| "ld_div (Finite s1 m1 e1) (Infinite s2) = Finite (s1 \<noteq> s2) 0 0"
| "ld_div (Infinite s1) (Finite s2 m2 e2) = Infinite (s1 \<noteq> s2)"
| "ld_div (Infinite s1) (Infinite s2) = NaN"
| "ld_div NaN y = NaN"
| "ld_div x NaN = NaN"

fun ld_is_zero :: "ldouble \<Rightarrow> bool" where
  "ld_is_zero (Finite s m e) = (m = 0)"
| "ld_is_zero (Infinite s) = False"
| "ld_is_zero NaN = False"

fun ld_le :: "ldouble \<Rightarrow> ldouble \<Rightarrow> bool" where
  "ld_le (Finite s1 m1 e1) (Finite s2 m2 e2) =
     (if m1 = 0 then 0 \<le> ld_signed s2 m2
      else if m2 = 0 then ld_signed s1 m1 \<le> 0
      else ld_signed s1 m1 * 2 ^ nat (e1 - min e1 e2)
             \<le> ld_signed s2 m2 * 2 ^ nat (e2 - min e1 e2))"
| "ld_le (Finite s1 m1 e1) (Infinite s2) = (\<not> s2)"
| "ld_le (Infinite s1) (Finite s2 m2 e2) = s1"
| "ld_le (Infinite s1) (Infinite s2) = (if s2 then s1 else True)"
| "ld_le NaN y = False"
| "ld_le x NaN = False"

text \<open>
  The real number a finite value stands for.
\<close>

fun ld_value :: "ldouble \<Rightarrow> real option" where
  "ld_value (Finite s m e) = Some (real_of_int (ld_signed s m) * 2 powr real_of_int e)"
| "ld_value (Infinite s) = None"
| "ld_value NaN = None"

section \<open>The migration transport\<close>

text \<open>
  Modelled from the spec: the transport (\<^verbatim>\<open>QEMUFile\<close>, declared outside the sources at
  hand) is a byte-stream sink with \<^verbatim>\<open>put_u64_be\<close>, \<^verbatim>\<open>put_u8\<close>, \<^verbatim>\<open>put_bytes\<close>,
  \<^verbatim>\<open>flush\<close>, \<^verbatim>\<open>rate_limited\<close> and \<^verbatim>\<open>rate_limit_window_bytes\<close>, and a byte source
  with \<^verbatim>\<open>get_u64_be\<close>, \<^verbatim>\<open>get_u8\<close>, \<^verbatim>\<open>get_bytes\<close> and \<^verbatim>\<open>error\<close>. \<open>wire\<close> is every
  byte put so far, \<open>flushed\<close> how many of them the last flush pushed out,
  \<open>bytes_xfer\<close> the bytes counted against the window \<open>xfer_limit\<close>; \<open>rd\<close> is the
  unread input and \<open>last_error\<close> the sticky error of the source (a read past the end
  of the input yields zero bytes and sets it to \<open>-EIO\<close>).
\<close>

record QEMUFile =
  wire :: "u8 list"
  flushed :: nat
  bytes_xfer :: int
  xfer_limit :: int
  rd :: "u8 list"
  last_error :: int

definition qemu_put_buffer :: "QEMUFile \<Rightarrow> u8 list \<Rightarrow> int \<Rightarrow> QEMUFile" where
  "qemu_put_buffer f p n =
     f\<lparr>wire := wire f @ take (nat n) p,
       bytes_xfer := bytes_xfer f + int (length (take (nat n) p))\<rparr>"

definition qemu_put_byte :: "QEMUFile \<Rightarrow> int \<Rightarrow> QEMUFile" where
  "qemu_put_byte f v = qemu_put_buffer f [word_of_int v] 1"

definition be64 :: "64 word \<Rightarrow> u8 list" where
  "be64 v = map (\<lambda>i. ucast (drop_bit (8 * i) v)) [7, 6, 5, 4, 3, 2, 1, 0]"

definition qemu_put_be64 :: "QEMUFile \<Rightarrow> int \<Rightarrow> QEMUFile" where
  "qemu_put_be64 f v = qemu_put_buffer f (be64 (word_of_int v)) 8"

definition qemu_fflush :: "QEMUFile \<Rightarrow> QEMUFile" where
  "qemu_fflush f = f\<lparr>flushed := length (wire f)\<rparr>"

definition qemu_file_rate_limit :: "QEMUFile \<Rightarrow> bool" where
  "qemu_file_rate_limit f = (xfer_limit f < bytes_xfer f)"

definition qemu_file_get_rate_limit :: "QEMUFile \<Rightarrow> int" where
  "qemu_file_get_rate_limit f = xfer_limit f"

definition qemu_file_get_error :: "QEMUFile \<Rightarrow> int" where
  "qemu_file_get_error f = last_error f"

definition qemu_get_buffer :: "QEMUFile \<Rightarrow> int \<Rightarrow> u8 list \<times> QEMUFile" where
  "qemu_get_buffer f n =
     (if nat n \<le> length (rd f) then (take (nat n) (rd f), f\<lparr>rd := drop (nat n) (rd f)\<rparr>)
      else (rd f @ replicate (nat n - length (rd f)) 0, f\<lparr>rd := [], last_error := - EIO\<rparr>))"

definition qemu_get_byte :: "QEMUFile \<Rightarrow> int \<times> QEMUFile" where
  "qemu_get_byte f = (case qemu_get_buffer f 1 of (p, f') \<Rightarrow> (uint (hd p), f'))"

definition of_be64 :: "u8 list \<Rightarrow> 64 word" where
  "of_be64 p = foldl (\<lambda>a b. push_bit 8 a OR ucast b) 0 p"

definition qemu_get_be64 :: "QEMUFile \<Rightarrow> int \<times> QEMUFile" where
  "qemu_get_be64 f = (case qemu_get_buffer f 8 of (p, f') \<Rightarrow> (sint (of_be64 p), f'))"

section \<open>The block layer\<close>

text \<open>
  Modelled from the spec: the block driver abstraction (\<^verbatim>\<open>BlockDriverState\<close> and the
  \<^verbatim>\<open>bdrv_*\<close> functions, declared outside the sources at hand) offers \<^verbatim>\<open>length\<close>,
  \<^verbatim>\<open>read_only\<close>, \<^verbatim>\<open>is_allocated\<close>, \<^verbatim>\<open>read\<close>, \<^verbatim>\<open>write\<close>, \<^verbatim>\<open>async_read\<close>,
  \<^verbatim>\<open>drain_all\<close>, \<^verbatim>\<open>set_dirty_tracking\<close>, \<^verbatim>\<open>get_dirty\<close>, \<^verbatim>\<open>reset_dirty\<close>,
  \<^verbatim>\<open>dirty_count\<close>, \<^verbatim>\<open>iterate_all\<close>, \<^verbatim>\<open>find\<close>, \<^verbatim>\<open>set_in_use\<close> and a drive reference
  table. A device is a record: its name (the bytes before the terminating NUL), its
  length in bytes, the set of its dirty chunks, what a probe for allocation and a read
  at a sector answer, and the log of the writes it received. A
  \<^verbatim>\<open>BlockDriverState *\<close> is an index into the table \<open>bdrv_states\<close> of the process.
\<close>

record BlockDriverState =
  device_name :: "u8 list"
  bs_length :: int
  bs_read_only :: bool
  dirty_tracking :: bool
  dirty_chunks :: "int set"
  in_use :: bool
  drive_refs :: int
  is_allocated_probe :: "int \<Rightarrow> bool \<times> int"
  read_outcome :: "int \<Rightarrow> int \<Rightarrow> int \<times> u8 list"
  write_ret :: int
  written :: "(int \<times> int \<times> u8 list) list"

section \<open>The data of the migration engine\<close>

text \<open>
  The three structs of the source. Pointers are indices: \<open>bs\<close> into the table of block
  devices, \<open>bmds\<close> into \<open>bmds_list\<close>. The queue links, the I/O vector and the AIO
  handle of a block are plumbing and are left out, as is the unused field
  \<^verbatim>\<open>dirty\<close> of a device. The fields \<^verbatim>\<open>bulk_completed\<close>, \<^verbatim>\<open>shared_base\<close> and
  \<^verbatim>\<open>sparse_enable\<close> of \<^verbatim>\<open>BlkMigDevState\<close> carry the prefix \<open>bmds_\<close>, the engine's
  fields of the same names keep theirs. The in-flight bitmap is an array of 64-bit
  words (\<^verbatim>\<open>unsigned long\<close>), indexed by word number.
\<close>

record BlkMigDevState =
  bs :: nat
  bmds_bulk_completed :: int
  bmds_shared_base :: int
  bmds_sparse_enable :: int
  cur_sector :: int
  cur_dirty :: int
  completed_sectors :: int
  total_sectors :: int
  aio_bitmap :: "nat \<Rightarrow> 64 word"

record BlkMigBlock =
  buf :: "u8 list"
  bmds :: nat
  sector :: int
  nr_sectors :: int
  ret :: int

record BlkMigState =
  blk_enable :: int
  shared_base :: int
  sparse_enable :: int
  bmds_list :: "BlkMigDevState list"
  blk_list :: "BlkMigBlock list"
  submitted :: int
  read_done :: int
  transferred :: int
  total_sector_sum :: int
  prev_progress :: int
  bulk_completed :: int
  total_time :: ldouble
  prev_time_offset :: ldouble
  reads :: int

text \<open>
  The state of the process: the singleton \<^verbatim>\<open>block_mig_state\<close>, extended by the three
  statistics counters of the file, the \<^verbatim>\<open>QEMUFile\<close> the hooks are called with, the
  block layer's devices and outstanding asynchronous reads, the clock, the downtime the
  migration driver allows (what \<^verbatim>\<open>migrate_max_downtime()\<close> returns, as the
  \<^verbatim>\<open>long double\<close> it is compared with), and the bytes an uninitialised allocation holds.
\<close>

record world = BlkMigState +
  total_blocks :: int
  zero_blocks :: int
  bulk_blocks :: int
  mig_file :: QEMUFile
  bdrv_states :: "BlockDriverState list"
  aio_pending :: "(nat \<times> BlkMigBlock) list"
  rt_clock :: int
  migrate_max_downtime :: ldouble
  heap_junk :: "nat \<Rightarrow> u8"

definition g_malloc :: "world \<Rightarrow> int \<Rightarrow> u8 list" where
  "g_malloc w n = map (heap_junk w) [0..<nat n]"

section \<open>Zero-block detection and the frame encoder\<close>

text \<open>
  \<^verbatim>\<open>ALL_EQ\<close> compares two 16-byte vectors bytewise. \<^verbatim>\<open>is_zero_blk\<close> walks
  \<^verbatim>\<open>BLOCK_SIZE / sizeof(VECTYPE)\<close> vectors and returns 0 at the first that differs from
  zero.
\<close>

definition ALL_EQ :: "u8 list \<Rightarrow> u8 list \<Rightarrow> bool" where
  "ALL_EQ v1 v2 = (v1 = v2)"

fun is_zero_vecs :: "nat \<Rightarrow> u8 list \<Rightarrow> int" where
  "is_zero_vecs 0 p = 1"
| "is_zero_vecs (Suc n) p =
     (if \<not> ALL_EQ (replicate 16 0) (take 16 p) then 0 else is_zero_vecs n (drop 16 p))"

definition is_zero_blk :: "bdrv_consts \<Rightarrow> u8 list \<Rightarrow> int" where
  "is_zero_blk c bufp = is_zero_vecs (nat (BLOCK_SIZE c div 16)) bufp"

definition blk_send :: "bdrv_consts \<Rightarrow> BlkMigBlock \<Rightarrow> world \<Rightarrow> world" where
  "blk_send c blk w =
     (let d = bmds_list w ! bmds blk;
          zero_blk = is_zero_blk c (buf blk);
          w1 = w\<lparr>total_blocks := total_blocks w + 1\<rparr>;
          w2 = (if zero_blk \<noteq> 0 then w1\<lparr>zero_blocks := zero_blocks w1 + 1\<rparr> else w1);
          w3 = (if bmds_bulk_completed d = 0 then w2\<lparr>bulk_blocks := bulk_blocks w2 + 1\<rparr> else w2)
      in if zero_blk \<noteq> 0 \<and> bmds_sparse_enable d \<noteq> 0 \<and> bmds_bulk_completed d = 0 then w3
         else
           let f1 = qemu_put_be64 (mig_file w3)
                      (push_bit (BDRV_SECTOR_BITS c) (sector blk)
                         OR BLK_MIG_FLAG_DEVICE_BLOCK OR (zero_blk * BLK_MIG_FLAG_ZERO_BLOCK));
               name = device_name (bdrv_states w3 ! bs d);
               len = int (length name);
               f2 = qemu_put_byte f1 len;
               f3 = qemu_put_buffer f2 name len;
               f4 = (if zero_blk = 0 then qemu_put_buffer f3 (buf blk) (BLOCK_SIZE c)
                     else qemu_fflush f3)
           in w3\<lparr>mig_file := f4\<rparr>)"

section \<open>Block-layer primitives\<close>

text \<open>
  Modelled from the spec: the primitives of the block layer the engine calls, over the
  device records above. A dirty bit belongs to the chunk that holds the sector;
  \<^verbatim>\<open>reset_dirty\<close> clears the bits of every chunk the range touches; \<^verbatim>\<open>dirty_count\<close>
  counts dirty chunks. A read overwrites the first \<open>nr\<close> sectors of the buffer with
  what the device answers. An asynchronous read is queued in \<open>aio_pending\<close> together
  with its device; the data is read when the block layer completes it.
\<close>

definition c_div :: "int \<Rightarrow> int \<Rightarrow> int" where
  "c_div a b = sgn a * sgn b * (\<bar>a\<bar> div \<bar>b\<bar>)"

definition c_mod :: "int \<Rightarrow> int \<Rightarrow> int" where
  "c_mod a b = a - b * c_div a b"

definition bdrv_getlength :: "world \<Rightarrow> nat \<Rightarrow> int" where
  "bdrv_getlength w b = bs_length (bdrv_states w ! b)"

definition bdrv_is_read_only :: "world \<Rightarrow> nat \<Rightarrow> bool" where
  "bdrv_is_read_only w b = bs_read_only (bdrv_states w ! b)"

definition bdrv_is_allocated :: "world \<Rightarrow> nat \<Rightarrow> int \<Rightarrow> int \<Rightarrow> bool \<times> int" where
  "bdrv_is_allocated w b sec max_search = is_allocated_probe (bdrv_states w ! b) sec"

definition bdrv_get_dirty :: "bdrv_consts \<Rightarrow> world \<Rightarrow> nat \<Rightarrow> int \<Rightarrow> int" where
  "bdrv_get_dirty c w b sec =
     (if c_div sec (BDRV_SECTORS_PER_DIRTY_CHUNK c) \<in> dirty_chunks (bdrv_states w ! b)
      then 1 else 0)"

definition bdrv_reset_dirty :: "bdrv_consts \<Rightarrow> nat \<Rightarrow> int \<Rightarrow> int \<Rightarrow> world \<Rightarrow> world" where
  "bdrv_reset_dirty c b sec nr w =
     w\<lparr>bdrv_states := (bdrv_states w)
         [b := (bdrv_states w ! b)
            \<lparr>dirty_chunks := dirty_chunks (bdrv_states w ! b)
                - {c_div sec (BDRV_SECTORS_PER_DIRTY_CHUNK c) ..
                   c_div (sec + nr - 1) (BDRV_SECTORS_PER_DIRTY_CHUNK c)}\<rparr>]\<rparr>"

definition bdrv_get_dirty_count :: "world \<Rightarrow> nat \<Rightarrow> int" where
  "bdrv_get_dirty_count w b = int (card (dirty_chunks (bdrv_states w ! b)))"

definition bdrv_set_dirty_tracking :: "nat \<Rightarrow> int \<Rightarrow> world \<Rightarrow> world" where
  "bdrv_set_dirty_tracking b enable w =
     w\<lparr>bdrv_states := (bdrv_states w)[b := (bdrv_states w ! b)\<lparr>dirty_tracking := (enable \<noteq> 0)\<rparr>]\<rparr>"

definition bdrv_set_in_use :: "nat \<Rightarrow> int \<Rightarrow> world \<Rightarrow> world" where
  "bdrv_set_in_use b v w =
     w\<lparr>bdrv_states := (bdrv_states w)[b := (bdrv_states w ! b)\<lparr>in_use := (v \<noteq> 0)\<rparr>]\<rparr>"

definition drive_get_ref :: "nat \<Rightarrow> world \<Rightarrow> world" where
  "drive_get_ref b w =
     w\<lparr>bdrv_states := (bdrv_states w)
         [b := (bdrv_states w ! b)\<lparr>drive_refs := drive_refs (bdrv_states w ! b) + 1\<rparr>]\<rparr>"

definition drive_put_ref :: "nat \<Rightarrow> world \<Rightarrow> world" where
  "drive_put_ref b w =
     w\<lparr>bdrv_states := (bdrv_states w)
         [b := (bdrv_states w ! b)\<lparr>drive_refs := drive_refs (bdrv_states w ! b) - 1\<rparr>]\<rparr>"

definition overwrite :: "u8 list \<Rightarrow> u8 list \<Rightarrow> u8 list" where
  "overwrite p new = new @ drop (length new) p"

definition bdrv_read :: "bdrv_consts \<Rightarrow> world \<Rightarrow> nat \<Rightarrow> int \<Rightarrow> u8 list \<Rightarrow> int \<Rightarrow> int \<times> u8 list" where
  "bdrv_read c w b sec p nr =
     (case read_outcome (bdrv_states w ! b) sec nr of
        (r, bytes) \<Rightarrow> (r, overwrite p (take (nat (nr * BDRV_SECTOR_SIZE c)) bytes)))"

definition bdrv_write :: "bdrv_consts \<Rightarrow> nat \<Rightarrow> int \<Rightarrow> u8 list \<Rightarrow> int \<Rightarrow> world \<Rightarrow> int \<times> world" where
  "bdrv_write c b sec p nr w =
     (write_ret (bdrv_states w ! b),
      w\<lparr>bdrv_states := (bdrv_states w)
          [b := (bdrv_states w ! b)
             \<lparr>written := written (bdrv_states w ! b)
                 @ [(sec, nr, take (nat (nr * BDRV_SECTOR_SIZE c)) p)]\<rparr>]\<rparr>)"

definition bdrv_find :: "world \<Rightarrow> u8 list \<Rightarrow> nat option" where
  "bdrv_find w name =
     find (\<lambda>b. device_name (bdrv_states w ! b) = name) [0..<length (bdrv_states w)]"

definition bdrv_aio_readv :: "nat \<Rightarrow> BlkMigBlock \<Rightarrow> world \<Rightarrow> world" where
  "bdrv_aio_readv b blk w = w\<lparr>aio_pending := aio_pending w @ [(b, blk)]\<rparr>"

definition qemu_get_clock_ns :: "world \<Rightarrow> int" where
  "qemu_get_clock_ns w = rt_clock w"

section \<open>The in-flight bitmap\<close>

text \<open>
  \<open>chunk_bit\<close> is the test \<^verbatim>\<open>aio_bitmap[chunk / 64] & (1UL << (chunk % 64))\<close> of one bit,
  \<open>mark_chunk\<close> the body of the loop of \<^verbatim>\<open>bmds_set_aio_inflight\<close> for one chunk.
\<close>

definition chunk_bit :: "(nat \<Rightarrow> 64 word) \<Rightarrow> int \<Rightarrow> bool" where
  "chunk_bit bm chunk = (bm (nat (chunk div 64)) AND push_bit (nat (chunk mod 64)) 1 \<noteq> 0)"

definition mark_chunk :: "int \<Rightarrow> int \<Rightarrow> (nat \<Rightarrow> 64 word) \<Rightarrow> nat \<Rightarrow> 64 word" where
  "mark_chunk set_flag chunk bm =
     (let idx = nat (chunk div 64);
          bit_no = nat (chunk mod 64);
          val = bm idx
      in bm(idx := (if set_flag \<noteq> 0 then val OR push_bit bit_no 1
                    else val AND NOT (push_bit bit_no 1))))"

definition bmds_aio_inflight :: "bdrv_consts \<Rightarrow> world \<Rightarrow> BlkMigDevState \<Rightarrow> int \<Rightarrow> int" where
  "bmds_aio_inflight c w d sec =
     (let chunk = c_div sec (BDRV_SECTORS_PER_DIRTY_CHUNK c)
      in if push_bit (BDRV_SECTOR_BITS c) sec < bdrv_getlength w (bs d)
         then (if chunk_bit (aio_bitmap d) chunk then 1 else 0)
         else 0)"

definition bmds_set_aio_inflight ::
    "bdrv_consts \<Rightarrow> BlkMigDevState \<Rightarrow> int \<Rightarrow> int \<Rightarrow> int \<Rightarrow> BlkMigDevState" where
  "bmds_set_aio_inflight c d sector_num nb_sectors set_flag =
     (let start = c_div sector_num (BDRV_SECTORS_PER_DIRTY_CHUNK c);
          last_chunk = c_div (sector_num + nb_sectors - 1) (BDRV_SECTORS_PER_DIRTY_CHUNK c)
      in d\<lparr>aio_bitmap := fold (mark_chunk set_flag) [start..last_chunk] (aio_bitmap d)\<rparr>)"

definition alloc_aio_bitmap :: "BlkMigDevState \<Rightarrow> BlkMigDevState" where
  "alloc_aio_bitmap d = d\<lparr>aio_bitmap := (\<lambda>idx. 0)\<rparr>"

section \<open>Read completion\<close>

text \<open>
  A function that can hit a failing \<^verbatim>\<open>assert\<close> or a loop that does not end returns an
  option: \<open>None\<close> is the call that never returns to its caller.
\<close>

definition blk_mig_read_cb :: "bdrv_consts \<Rightarrow> BlkMigBlock \<Rightarrow> int \<Rightarrow> world \<Rightarrow> world option" where
  "blk_mig_read_cb c opaque r w =
     (let curr_time = ld_of_int (qemu_get_clock_ns w);
          blk = opaque\<lparr>ret := r\<rparr>;
          w1 = w\<lparr>reads := reads w + 1\<rparr>;
          w2 = w1\<lparr>total_time := ld_add (total_time w1) (ld_sub curr_time (prev_time_offset w1))\<rparr>;
          w3 = w2\<lparr>prev_time_offset := curr_time\<rparr>;
          w4 = w3\<lparr>blk_list := blk_list w3 @ [blk]\<rparr>;
          w5 = w4\<lparr>bmds_list := (bmds_list w4)
                  [bmds blk := bmds_set_aio_inflight c (bmds_list w4 ! bmds blk)
                                 (sector blk) (nr_sectors blk) 0]\<rparr>;
          w6 = w5\<lparr>submitted := submitted w5 - 1\<rparr>;
          w7 = w6\<lparr>read_done := read_done w6 + 1\<rparr>
      in if submitted w7 \<ge> 0 then Some w7 else None)"

text \<open>
  The block layer completes the \<open>i\<close>-th outstanding read: it fills the buffer and runs
  the completion callback. \<^verbatim>\<open>bdrv_drain_all\<close> completes every outstanding read, oldest
  first.
\<close>

definition aio_complete :: "bdrv_consts \<Rightarrow> nat \<Rightarrow> world \<Rightarrow> world option" where
  "aio_complete c i w =
     (case aio_pending w ! i of
        (b, blk) \<Rightarrow>
          (case bdrv_read c w b (sector blk) (buf blk) (nr_sectors blk) of
             (r, p) \<Rightarrow>
               blk_mig_read_cb c (blk\<lparr>buf := p\<rparr>) r
                 (w\<lparr>aio_pending := take i (aio_pending w) @ drop (Suc i) (aio_pending w)\<rparr>)))"

fun drain_pending :: "bdrv_consts \<Rightarrow> nat \<Rightarrow> world \<Rightarrow> world option" where
  "drain_pending c 0 w = Some w"
| "drain_pending c (Suc n) w =
     (case aio_complete c 0 w of None \<Rightarrow> None | Some w' \<Rightarrow> drain_pending c n w')"

definition bdrv_drain_all :: "bdrv_consts \<Rightarrow> world \<Rightarrow> world option" where
  "bdrv_drain_all c w = drain_pending c (length (aio_pending w)) w"

section \<open>The bulk phase\<close>

partial_function (option) skip_unallocated :: "world \<Rightarrow> nat \<Rightarrow> int \<Rightarrow> int \<Rightarrow> int option" where
  "skip_unallocated w b cur total_secs =
     (if cur < total_secs \<and> \<not> fst (bdrv_is_allocated w b cur MAX_IS_ALLOCATED_SEARCH)
      then skip_unallocated w b (cur + snd (bdrv_is_allocated w b cur MAX_IS_ALLOCATED_SEARCH)) total_secs
      else Some cur)"

declare skip_unallocated.simps [code]

definition mig_save_device_bulk :: "bdrv_consts \<Rightarrow> nat \<Rightarrow> world \<Rightarrow> (int \<times> world) option" where
  "mig_save_device_bulk c i w =
     (let d = bmds_list w ! i;
          total_secs = total_sectors d;
          b = bs d
      in case (if bmds_shared_base d \<noteq> 0 then skip_unallocated w b (cur_sector d) total_secs
               else Some (cur_sector d)) of
           None \<Rightarrow> None
         | Some cur \<Rightarrow>
             if cur \<ge> total_secs
             then Some (1, w\<lparr>bmds_list := (bmds_list w)
                               [i := d\<lparr>cur_sector := total_secs, completed_sectors := total_secs\<rparr>]\<rparr>)
             else
               let d1 = d\<lparr>completed_sectors := cur\<rparr>;
                   cur1 = cur AND NOT (BDRV_SECTORS_PER_DIRTY_CHUNK c - 1);
                   nr = (if total_secs - cur1 < BDRV_SECTORS_PER_DIRTY_CHUNK c then total_secs - cur1
                         else BDRV_SECTORS_PER_DIRTY_CHUNK c);
                   blk = \<lparr>buf = g_malloc w (BLOCK_SIZE c), bmds = i, sector = cur1,
                          nr_sectors = nr, ret = 0\<rparr>;
                   w1 = w\<lparr>prev_time_offset :=
                            (if submitted w = 0 then ld_of_int (qemu_get_clock_ns w)
                             else prev_time_offset w)\<rparr>;
                   w2 = bdrv_aio_readv b blk w1;
                   w3 = w2\<lparr>submitted := submitted w2 + 1\<rparr>;
                   w4 = bdrv_reset_dirty c b cur1 nr w3;
                   w5 = w4\<lparr>bmds_list := (bmds_list w4)[i := d1\<lparr>cur_sector := cur1 + nr\<rparr>]\<rparr>
               in Some (if cur1 + nr \<ge> total_secs then 1 else 0, w5))"

definition set_dirty_tracking :: "int \<Rightarrow> world \<Rightarrow> world" where
  "set_dirty_tracking enable w =
     fold (\<lambda>d. bdrv_set_dirty_tracking (bs d) enable) (bmds_list w) w"

definition init_blk_migration_it :: "bdrv_consts \<Rightarrow> nat \<Rightarrow> world \<Rightarrow> world" where
  "init_blk_migration_it c b w =
     (if \<not> bdrv_is_read_only w b then
        let sectors = drop_bit (BDRV_SECTOR_BITS c) (bdrv_getlength w b)
        in if sectors \<le> 0 then w
           else
             let d = alloc_aio_bitmap
                       \<lparr>bs = b, bmds_bulk_completed = 0, bmds_shared_base = shared_base w,
                        bmds_sparse_enable = sparse_enable w, cur_sector = 0, cur_dirty = 0,
                        completed_sectors = 0, total_sectors = sectors,
                        aio_bitmap = (\<lambda>idx. 0)\<rparr>;
                 w1 = drive_get_ref b w;
                 w2 = bdrv_set_in_use b 1 w1;
                 w3 = w2\<lparr>total_sector_sum := total_sector_sum w2 + sectors\<rparr>
             in w3\<lparr>bmds_list := bmds_list w3 @ [d]\<rparr>
      else w)"

definition bdrv_iterate :: "(nat \<Rightarrow> world \<Rightarrow> world) \<Rightarrow> world \<Rightarrow> world" where
  "bdrv_iterate it w = fold it [0..<length (bdrv_states w)] w"

definition init_blk_migration :: "bdrv_consts \<Rightarrow> world \<Rightarrow> world" where
  "init_blk_migration c w =
     bdrv_iterate (init_blk_migration_it c)
       (w\<lparr>submitted := 0, read_done := 0, transferred := 0, total_sector_sum := 0,
          prev_progress := - 1, bulk_completed := 0, total_time := ld_of_int 0, reads := 0,
          total_blocks := 0, zero_blocks := 0, bulk_blocks := 0\<rparr>)"

text \<open>
  The loop of \<^verbatim>\<open>blk_mig_save_bulked_block\<close> over the devices, by index: it stops at the
  first device whose bulk phase is not completed and sums the completed sectors on
  its way.
\<close>

fun save_bulked_scan ::
    "bdrv_consts \<Rightarrow> nat list \<Rightarrow> int \<Rightarrow> world \<Rightarrow> (int \<times> int \<times> world) option" where
  "save_bulked_scan c [] completed_sector_sum w = Some (0, completed_sector_sum, w)"
| "save_bulked_scan c (i # rest) completed_sector_sum w =
     (if bmds_bulk_completed (bmds_list w ! i) = 0 then
        (case mig_save_device_bulk c i w of
           None \<Rightarrow> None
         | Some (r, w1) \<Rightarrow>
             let w2 = (if r = 1
                       then w1\<lparr>bmds_list := (bmds_list w1)
                                 [i := (bmds_list w1 ! i)\<lparr>bmds_bulk_completed := 1\<rparr>]\<rparr>
                       else w1)
             in Some (1, completed_sector_sum + completed_sectors (bmds_list w2 ! i), w2))
      else save_bulked_scan c rest
             (completed_sector_sum + completed_sectors (bmds_list w ! i)) w)"

definition blk_mig_save_bulked_block :: "bdrv_consts \<Rightarrow> world \<Rightarrow> (int \<times> world) option" where
  "blk_mig_save_bulked_block c w =
     (case save_bulked_scan c [0..<length (bmds_list w)] 0 w of
        None \<Rightarrow> None
      | Some (r, completed_sector_sum, w1) \<Rightarrow>
          let progress = (if total_sector_sum w1 \<noteq> 0
                          then c_div (completed_sector_sum * 100) (total_sector_sum w1)
                          else 100)
          in if progress \<noteq> prev_progress w1
             then Some (r, w1\<lparr>prev_progress := progress,
                              mig_file := qemu_put_be64 (mig_file w1)
                                (push_bit (BDRV_SECTOR_BITS c) progress OR BLK_MIG_FLAG_PROGRESS)\<rparr>)
             else Some (r, w1))"

definition blk_mig_reset_dirty_cursor :: "world \<Rightarrow> world" where
  "blk_mig_reset_dirty_cursor w = w\<lparr>bmds_list := map (\<lambda>d. d\<lparr>cur_dirty := 0\<rparr>) (bmds_list w)\<rparr>"

section \<open>The dirty phase\<close>

text \<open>
  The body of \<^verbatim>\<open>if (bdrv_get_dirty(bmds->bs, sector))\<close> in \<^verbatim>\<open>mig_save_device_dirty\<close>, up
  to the value the function returns after the \<^verbatim>\<open>break\<close>: the chunk at \<open>sec\<close> is read
  asynchronously or synchronously, and its dirty bits are reset. A failed synchronous
  read returns its code at once.
\<close>

definition save_dirty_chunk ::
    "bdrv_consts \<Rightarrow> nat \<Rightarrow> int \<Rightarrow> int \<Rightarrow> world \<Rightarrow> int \<times> world" where
  "save_dirty_chunk c i is_async sec w1 =
     (let d = bmds_list w1 ! i;
          total_secs = total_sectors d;
          nr = (if total_secs - sec < BDRV_SECTORS_PER_DIRTY_CHUNK c then total_secs - sec
                else BDRV_SECTORS_PER_DIRTY_CHUNK c);
          blk = \<lparr>buf = g_malloc w1 (BLOCK_SIZE c), bmds = i, sector = sec,
                 nr_sectors = nr, ret = 0\<rparr>
      in if is_async \<noteq> 0 then
           let w2 = w1\<lparr>prev_time_offset :=
                          (if submitted w1 = 0 then ld_of_int (qemu_get_clock_ns w1)
                           else prev_time_offset w1)\<rparr>;
               w3 = bdrv_aio_readv (bs d) blk w2;
               w4 = w3\<lparr>submitted := submitted w3 + 1\<rparr>;
               w5 = w4\<lparr>bmds_list := (bmds_list w4)
                       [i := bmds_set_aio_inflight c (bmds_list w4 ! i) sec nr 1]\<rparr>;
               w6 = bdrv_reset_dirty c (bs d) sec nr w5
           in (if cur_dirty (bmds_list w6 ! i) \<ge> total_sectors (bmds_list w6 ! i)
               then 1 else 0, w6)
         else
           (case bdrv_read c w1 (bs d) sec (buf blk) nr of
              (r, p) \<Rightarrow>
                if r < 0 then (r, w1)
                else
                  let w2 = blk_send c (blk\<lparr>buf := p\<rparr>) w1;
                      w3 = bdrv_reset_dirty c (bs d) sec nr w2
                  in (if cur_dirty (bmds_list w3 ! i) \<ge> total_sectors (bmds_list w3 ! i)
                      then 1 else 0, w3)))"

text \<open>
  The \<^verbatim>\<open>for\<close> loop of \<^verbatim>\<open>mig_save_device_dirty\<close>, with the loop variable \<open>sec\<close>: a
  chunk whose in-flight bit is set makes the loop wait for every outstanding read; a
  dirty chunk is saved and ends the loop; a clean chunk moves the loop variable and
  the dirty cursor one chunk on.
\<close>

partial_function (option) dirty_scan ::
    "bdrv_consts \<Rightarrow> nat \<Rightarrow> int \<Rightarrow> int \<Rightarrow> world \<Rightarrow> (int \<times> world) option" where
  "dirty_scan c i is_async sec w =
     (if sec < total_sectors (bmds_list w ! i) then
        (case (if bmds_aio_inflight c w (bmds_list w ! i) sec \<noteq> 0 then bdrv_drain_all c w
               else Some w) of
           None \<Rightarrow> None
         | Some w1 \<Rightarrow>
             if bdrv_get_dirty c w1 (bs (bmds_list w1 ! i)) sec \<noteq> 0
             then Some (save_dirty_chunk c i is_async sec w1)
             else
               dirty_scan c i is_async (sec + BDRV_SECTORS_PER_DIRTY_CHUNK c)
                 (w1\<lparr>bmds_list := (bmds_list w1)
                       [i := (bmds_list w1 ! i)
                          \<lparr>cur_dirty := sec + BDRV_SECTORS_PER_DIRTY_CHUNK c\<rparr>]\<rparr>))
      else Some (if cur_dirty (bmds_list w ! i) \<ge> total_sectors (bmds_list w ! i) then 1 else 0,
                 w))"

declare dirty_scan.simps [code]

definition mig_save_device_dirty ::
    "bdrv_consts \<Rightarrow> nat \<Rightarrow> int \<Rightarrow> world \<Rightarrow> (int \<times> world) option" where
  "mig_save_device_dirty c i is_async w = dirty_scan c i is_async (cur_dirty (bmds_list w ! i)) w"

fun save_dirty_scan ::
    "bdrv_consts \<Rightarrow> int \<Rightarrow> nat list \<Rightarrow> int \<Rightarrow> world \<Rightarrow> (int \<times> world) option" where
  "save_dirty_scan c is_async [] r w = Some (r, w)"
| "save_dirty_scan c is_async (i # rest) r w =
     (case mig_save_device_dirty c i is_async w of
        None \<Rightarrow> None
      | Some (r1, w1) \<Rightarrow>
          if r1 \<le> 0 then Some (r1, w1) else save_dirty_scan c is_async rest r1 w1)"

definition blk_mig_save_dirty_block :: "bdrv_consts \<Rightarrow> int \<Rightarrow> world \<Rightarrow> (int \<times> world) option" where
  "blk_mig_save_dirty_block c is_async w =
     save_dirty_scan c is_async [0..<length (bmds_list w)] 1 w"

section \<open>The send path\<close>

partial_function (option) flush_blks :: "bdrv_consts \<Rightarrow> world \<Rightarrow> (int \<times> world) option" where
  "flush_blks c w =
     (case blk_list w of
        [] \<Rightarrow> Some (0, w)
      | blk # rest \<Rightarrow>
          if qemu_file_rate_limit (mig_file w) then Some (0, w)
          else if ret blk < 0 then Some (ret blk, w)
          else
            let w1 = blk_send c blk w;
                w2 = w1\<lparr>blk_list := rest\<rparr>;
                w3 = w2\<lparr>read_done := read_done w2 - 1\<rparr>;
                w4 = w3\<lparr>transferred := transferred w3 + 1\<rparr>
            in if read_done w4 \<ge> 0 then flush_blks c w4 else None)"

declare flush_blks.simps [code]

section \<open>The convergence test\<close>

text \<open>
  The remaining dirty bytes, the read bandwidth (whose assertion makes the function
  partial) and the test itself. The integers \<^verbatim>\<open>reads\<close>, \<^verbatim>\<open>BLOCK_SIZE\<close> and
  \<^verbatim>\<open>remaining_dirty\<close> are converted to \<^verbatim>\<open>long double\<close> where they meet one.
\<close>

definition get_remaining_dirty :: "bdrv_consts \<Rightarrow> world \<Rightarrow> int" where
  "get_remaining_dirty c w =
     fold (\<lambda>d dirty. dirty + bdrv_get_dirty_count w (bs d)) (bmds_list w) 0 * BLOCK_SIZE c"

definition compute_read_bwidth :: "bdrv_consts \<Rightarrow> world \<Rightarrow> ldouble option" where
  "compute_read_bwidth c w =
     (if \<not> ld_is_zero (total_time w)
      then Some (ld_mul (ld_div (ld_of_int (reads w)) (total_time w)) (ld_of_int (BLOCK_SIZE c)))
      else None)"

definition is_stage2_completed :: "bdrv_consts \<Rightarrow> world \<Rightarrow> int option" where
  "is_stage2_completed c w =
     (if bulk_completed w = 1 then
        let remaining_dirty = get_remaining_dirty c w
        in if remaining_dirty = 0 then Some 1
           else
             (case compute_read_bwidth c w of
                None \<Rightarrow> None
              | Some bwidth \<Rightarrow>
                  if ld_le (ld_div (ld_of_int remaining_dirty) bwidth) (migrate_max_downtime w)
                  then Some 1 else Some 0)
      else Some 0)"

section \<open>The lifecycle hooks of the sender\<close>

definition blk_mig_cleanup :: "bdrv_consts \<Rightarrow> world \<Rightarrow> world option" where
  "blk_mig_cleanup c w =
     (case bdrv_drain_all c w of
        None \<Rightarrow> None
      | Some w1 \<Rightarrow>
          let w2 = set_dirty_tracking 0 w1;
              w3 = fold (\<lambda>d v. drive_put_ref (bs d) (bdrv_set_in_use (bs d) 0 v)) (bmds_list w2) w2
          in Some (w3\<lparr>bmds_list := [], blk_list := []\<rparr>))"

definition block_migration_cancel :: "bdrv_consts \<Rightarrow> world \<Rightarrow> world option" where
  "block_migration_cancel c w = blk_mig_cleanup c w"

definition cleanup_and_return :: "bdrv_consts \<Rightarrow> int \<Rightarrow> world \<Rightarrow> (int \<times> world) option" where
  "cleanup_and_return c r w =
     (case blk_mig_cleanup c w of None \<Rightarrow> None | Some w1 \<Rightarrow> Some (r, w1))"

definition block_save_setup :: "bdrv_consts \<Rightarrow> world \<Rightarrow> (int \<times> world) option" where
  "block_save_setup c w =
     (let w1 = init_blk_migration c w;
          w2 = set_dirty_tracking 1 w1
      in case flush_blks c w2 of
           None \<Rightarrow> None
         | Some (r, w3) \<Rightarrow>
             if r \<noteq> 0 then cleanup_and_return c r w3
             else
               let w4 = blk_mig_reset_dirty_cursor w3
               in Some (0, w4\<lparr>mig_file := qemu_put_be64 (mig_file w4) BLK_MIG_FLAG_EOS\<rparr>))"

text \<open>
  The rate-controlled \<^verbatim>\<open>while\<close> loop of \<^verbatim>\<open>block_save_iterate\<close>; \<open>r\<close> is the local
  \<^verbatim>\<open>ret\<close>, which only the dirty step assigns. The left side of the guard is computed
  in \<^verbatim>\<open>int\<close> and then compared with the 64-bit window.
\<close>

partial_function (option) iterate_loop ::
    "bdrv_consts \<Rightarrow> int \<Rightarrow> world \<Rightarrow> (int \<times> world) option" where
  "iterate_loop c r w =
     (if int32 ((submitted w + read_done w) * BLOCK_SIZE c) < qemu_file_get_rate_limit (mig_file w)
      then
        (if bulk_completed w = 0 then
           (case blk_mig_save_bulked_block c w of
              None \<Rightarrow> None
            | Some (r1, w1) \<Rightarrow>
                iterate_loop c r (if r1 = 0 then w1\<lparr>bulk_completed := 1\<rparr> else w1))
         else
           (case blk_mig_save_dirty_block c 1 w of
              None \<Rightarrow> None
            | Some (r1, w1) \<Rightarrow> if r1 \<noteq> 0 then Some (r1, w1) else iterate_loop c r1 w1))
      else Some (r, w))"

declare iterate_loop.simps [code]

definition block_save_iterate :: "bdrv_consts \<Rightarrow> world \<Rightarrow> (int \<times> world) option" where
  "block_save_iterate c w =
     (case flush_blks c w of
        None \<Rightarrow> None
      | Some (r, w1) \<Rightarrow>
          if r \<noteq> 0 then cleanup_and_return c r w1
          else
            (case iterate_loop c r (blk_mig_reset_dirty_cursor w1) of
               None \<Rightarrow> None
             | Some (r2, w2) \<Rightarrow>
                 if r2 \<noteq> 0 then cleanup_and_return c r2 w2
                 else
                   (case flush_blks c w2 of
                      None \<Rightarrow> None
                    | Some (r3, w3) \<Rightarrow>
                        if r3 \<noteq> 0 then cleanup_and_return c r3 w3
                        else
                          let w4 = w3\<lparr>mig_file := qemu_put_be64 (mig_file w3) BLK_MIG_FLAG_EOS\<rparr>
                          in (case is_stage2_completed c w4 of
                                None \<Rightarrow> None
                              | Some r4 \<Rightarrow> Some (r4, w4)))))"

partial_function (option) complete_loop :: "bdrv_consts \<Rightarrow> world \<Rightarrow> (int \<times> world) option" where
  "complete_loop c w =
     (case blk_mig_save_dirty_block c 0 w of
        None \<Rightarrow> None
      | Some (r, w1) \<Rightarrow> if r = 0 then complete_loop c w1 else Some (r, w1))"

declare complete_loop.simps [code]

definition block_save_complete :: "bdrv_consts \<Rightarrow> world \<Rightarrow> (int \<times> world) option" where
  "block_save_complete c w =
     (case flush_blks c w of
        None \<Rightarrow> None
      | Some (r, w1) \<Rightarrow>
          if r \<noteq> 0 then cleanup_and_return c r w1
          else
            let w2 = blk_mig_reset_dirty_cursor w1
            in if submitted w2 \<noteq> 0 then None
               else
                 (case complete_loop c w2 of
                    None \<Rightarrow> None
                  | Some (r2, w3) \<Rightarrow>
                      (case blk_mig_cleanup c w3 of
                         None \<Rightarrow> None
                       | Some w4 \<Rightarrow>
                           if r2 \<noteq> 0 then Some (r2, w4)
                           else
                             let f1 = qemu_put_be64 (mig_file w4)
                                        (push_bit (BDRV_SECTOR_BITS c) 100 OR BLK_MIG_FLAG_PROGRESS)
                             in Some (0, w4\<lparr>mig_file := qemu_put_be64 f1 BLK_MIG_FLAG_EOS\<rparr>))))"

definition blk_mig_init :: "world \<Rightarrow> world" where
  "blk_mig_init w = w\<lparr>bmds_list := [], blk_list := []\<rparr>"

section \<open>The receiver\<close>

text \<open>
  The locals of \<^verbatim>\<open>block_load\<close> that live across iterations of its loop. One iteration
  (\<open>block_load_frame\<close>) either returns a code (\<open>Inl\<close>) or reaches the loop test with
  the flags of the frame (\<open>Inr\<close>); \<open>block_load_device_block\<close> is its branch for a
  device block and \<open>block_load_buffer\<close> the filling of the scratch buffer. The received
  name is a C string: it ends at its first NUL.
\<close>

record block_load_locals =
  bs_prev :: "nat option"
  ld_total_sectors :: int
  ld_buf :: "u8 list"
  buf_is_zeroed :: int

definition block_load_buffer ::
    "bdrv_consts \<Rightarrow> int \<Rightarrow> block_load_locals \<Rightarrow> QEMUFile \<Rightarrow> block_load_locals \<times> QEMUFile" where
  "block_load_buffer c flags l f =
     (if flags AND BLK_MIG_FLAG_ZERO_BLOCK \<noteq> 0
      then (l\<lparr>ld_buf := (if buf_is_zeroed l = 0 then replicate (nat (BLOCK_SIZE c)) 0
                           else ld_buf l),
               buf_is_zeroed := 1\<rparr>, f)
      else (case qemu_get_buffer f (BLOCK_SIZE c) of
              (p, f') \<Rightarrow> (l\<lparr>ld_buf := p, buf_is_zeroed := 0\<rparr>, f')))"

definition block_load_device_block ::
    "bdrv_consts \<Rightarrow> int \<Rightarrow> int \<Rightarrow> block_load_locals \<Rightarrow> QEMUFile \<Rightarrow> world
       \<Rightarrow> (int + int \<times> block_load_locals) \<times> world" where
  "block_load_device_block c flags addr l f1 w =
     (case qemu_get_byte f1 of
        (len, f2) \<Rightarrow>
          (case qemu_get_buffer f2 len of
             (p, f3) \<Rightarrow>
               (case bdrv_find w (takeWhile (\<lambda>ch. ch \<noteq> 0) p) of
                  None \<Rightarrow> (Inl (- EINVAL), w\<lparr>mig_file := f3\<rparr>)
                | Some b \<Rightarrow>
                    if Some b \<noteq> bs_prev l
                       \<and> drop_bit (BDRV_SECTOR_BITS c) (bdrv_getlength w b) \<le> 0
                    then (Inl (- EINVAL), w\<lparr>mig_file := f3\<rparr>)
                    else
                      let l1 = (if Some b \<noteq> bs_prev l
                                then l\<lparr>bs_prev := Some b,
                                       ld_total_sectors :=
                                         drop_bit (BDRV_SECTOR_BITS c) (bdrv_getlength w b)\<rparr>
                                else l);
                          nr = (if ld_total_sectors l1 - addr < BDRV_SECTORS_PER_DIRTY_CHUNK c
                                then ld_total_sectors l1 - addr
                                else BDRV_SECTORS_PER_DIRTY_CHUNK c)
                      in (case block_load_buffer c flags l1 f3 of
                            (l2, f5) \<Rightarrow>
                              (case bdrv_write c b addr (ld_buf l2) nr (w\<lparr>mig_file := f5\<rparr>) of
                                 (r, w1) \<Rightarrow>
                                   if r < 0 then (Inl r, w1)
                                   else if qemu_file_get_error (mig_file w1) \<noteq> 0
                                   then (Inl (qemu_file_get_error (mig_file w1)), w1)
                                   else (Inr (flags, l2), w1))))))"

definition block_load_frame ::
    "bdrv_consts \<Rightarrow> block_load_locals \<Rightarrow> world \<Rightarrow> (int + int \<times> block_load_locals) \<times> world" where
  "block_load_frame c l w =
     (case qemu_get_be64 (mig_file w) of
        (addr0, f1) \<Rightarrow>
          let flags = addr0 AND NOT (BDRV_SECTOR_MASK c);
              addr = drop_bit (BDRV_SECTOR_BITS c) addr0
          in if flags AND BLK_MIG_FLAG_DEVICE_BLOCK \<noteq> 0 then
               block_load_device_block c flags addr l f1 w
             else if flags AND BLK_MIG_FLAG_PROGRESS \<noteq> 0 then
               (if qemu_file_get_error f1 \<noteq> 0
                then (Inl (qemu_file_get_error f1), w\<lparr>mig_file := f1\<rparr>)
                else (Inr (flags, l), w\<lparr>mig_file := f1\<rparr>))
             else if flags AND BLK_MIG_FLAG_EOS = 0 then (Inl (- EINVAL), w\<lparr>mig_file := f1\<rparr>)
             else if qemu_file_get_error f1 \<noteq> 0
             then (Inl (qemu_file_get_error f1), w\<lparr>mig_file := f1\<rparr>)
             else (Inr (flags, l), w\<lparr>mig_file := f1\<rparr>))"

partial_function (option) block_load_loop ::
    "bdrv_consts \<Rightarrow> block_load_locals \<Rightarrow> world \<Rightarrow> (int \<times> world) option" where
  "block_load_loop c l w =
     (case block_load_frame c l w of
        (Inl r, w1) \<Rightarrow> Some (r, w1)
      | (Inr (flags, l1), w1) \<Rightarrow>
          if flags AND BLK_MIG_FLAG_EOS = 0 then block_load_loop c l1 w1 else Some (0, w1))"

declare block_load_loop.simps [code]

definition block_load :: "bdrv_consts \<Rightarrow> world \<Rightarrow> (int \<times> world) option" where
  "block_load c w =
     block_load_loop c
       \<lparr>bs_prev = None, ld_total_sectors = 0, ld_buf = g_malloc w (BLOCK_SIZE c),
        buf_is_zeroed = 0\<rparr> w"

text \<open>
  \<open>block_load_at c w0 l w\<close>: the loop of \<^verbatim>\<open>block_load\<close>, called in the state \<open>w0\<close>,
  is at its head with the locals \<open>l\<close> in the state \<open>w\<close>. It is there on entry, and
  again after every iteration that neither returned nor read an \<open>EOS\<close> header.
\<close>

inductive block_load_at :: "bdrv_consts \<Rightarrow> world \<Rightarrow> block_load_locals \<Rightarrow> world \<Rightarrow> bool"
  for c :: bdrv_consts and w0 :: world where
  entry: "block_load_at c w0
            \<lparr>bs_prev = None, ld_total_sectors = 0, ld_buf = g_malloc w0 (BLOCK_SIZE c),
             buf_is_zeroed = 0\<rparr> w0"
| next_frame: "block_load_at c w0 l w \<Longrightarrow> block_load_frame c l w = (Inr (flags, l'), w')
      \<Longrightarrow> flags AND BLK_MIG_FLAG_EOS = 0 \<Longrightarrow> block_load_at c w0 l' w'"

section \<open>Parameters\<close>

text \<open>
  Modelled from the spec: \<^verbatim>\<open>MigrationParams\<close> is declared outside the sources at hand;
  the parameter surface is three booleans \<open>blk\<close>, \<open>shared\<close> and \<open>sparse\<close>. A C
  \<^verbatim>\<open>bool\<close> converts to the integers 0 and 1.
\<close>

record MigrationParams =
  blk :: bool
  shared :: bool
  sparse :: bool

definition int_of_bool :: "bool \<Rightarrow> int" where
  "int_of_bool b = (if b then 1 else 0)"

definition block_set_params :: "MigrationParams \<Rightarrow> world \<Rightarrow> world" where
  "block_set_params params w =
     (let w1 = w\<lparr>blk_enable := int_of_bool (blk params)\<rparr>;
          w2 = w1\<lparr>shared_base := int_of_bool (shared params)\<rparr>;
          w3 = w2\<lparr>sparse_enable := int_of_bool (sparse params)\<rparr>;
          w4 = w3\<lparr>blk_enable := blk_enable w3 OR int_of_bool (shared params)\<rparr>
      in w4\<lparr>blk_enable := blk_enable w4 OR int_of_bool (sparse params)\<rparr>)"

definition block_is_active :: "world \<Rightarrow> bool" where
  "block_is_active w = (blk_enable w = 1)"

section \<open>Sessions and their observation points\<close>

text \<open>
  \<open>pipeline k w\<close> ties the two pipeline counters to what they count: \<open>read_done\<close> to
  the length of the pending queue, up to a surplus \<open>k\<close>, and \<open>submitted\<close> to the number
  of reads outstanding in the block layer. \<open>counters\<close> collects the queue, the
  outstanding reads and the three counters. \<open>session c cleaned tr\<close> says that \<open>tr\<close>
  lists, latest first, the states at the observation points of a session: it starts
  with the state a successful \<^verbatim>\<open>block_save_setup\<close> leaves, from a state in which the
  queue is empty and no read is outstanding (as \<^verbatim>\<open>blk_mig_init\<close> leaves it), and goes
  on by the completion of an outstanding read, a flush, a bulk step, a dirty step, one
  of the plain assignments the hooks make between these (the reset of the dirty
  cursors, the setting of \<open>bulk_completed\<close>, a header word put on the wire), a run of
  \<^verbatim>\<open>blk_mig_cleanup\<close>, or a move of the environment (guest writes, the clock, the
  rate-limit window). \<open>cleaned\<close> tells whether \<^verbatim>\<open>blk_mig_cleanup\<close> has run.
\<close>

definition pipeline :: "int \<Rightarrow> world \<Rightarrow> bool" where
  "pipeline k w =
     (int (length (blk_list w)) + k = read_done w \<and> int (length (aio_pending w)) = submitted w)"

definition counters :: "world \<Rightarrow> BlkMigBlock list \<times> (nat \<times> BlkMigBlock) list \<times> int \<times> int \<times> int" where
  "counters w = (blk_list w, aio_pending w, read_done w, submitted w, transferred w)"

inductive session :: "bdrv_consts \<Rightarrow> bool \<Rightarrow> world list \<Rightarrow> bool" for c :: bdrv_consts where
  started: "blk_list w0 = [] \<Longrightarrow> aio_pending w0 = [] \<Longrightarrow> block_save_setup c w0 = Some (0, w)
      \<Longrightarrow> session c False [w]"
| completion: "session c cleaned (w # tr) \<Longrightarrow> i < length (aio_pending w)
      \<Longrightarrow> aio_complete c i w = Some w' \<Longrightarrow> session c cleaned (w' # w # tr)"
| flush: "session c cleaned (w # tr) \<Longrightarrow> flush_blks c w = Some (r, w')
      \<Longrightarrow> session c cleaned (w' # w # tr)"
| bulk_step: "session c cleaned (w # tr) \<Longrightarrow> blk_mig_save_bulked_block c w = Some (r, w')
      \<Longrightarrow> session c cleaned (w' # w # tr)"
| dirty_step: "session c cleaned (w # tr) \<Longrightarrow> blk_mig_save_dirty_block c is_async w = Some (r, w')
      \<Longrightarrow> session c cleaned (w' # w # tr)"
| cursor_reset: "session c cleaned (w # tr)
      \<Longrightarrow> session c cleaned (blk_mig_reset_dirty_cursor w # w # tr)"
| bulk_done: "session c cleaned (w # tr) \<Longrightarrow> session c cleaned (w\<lparr>bulk_completed := 1\<rparr> # w # tr)"
| marker: "session c cleaned (w # tr)
      \<Longrightarrow> session c cleaned (w\<lparr>mig_file := qemu_put_be64 (mig_file w) v\<rparr> # w # tr)"
| cleanup: "session c cleaned (w # tr) \<Longrightarrow> blk_mig_cleanup c w = Some w'
      \<Longrightarrow> session c True (w' # w # tr)"
| environment: "session c cleaned (w # tr)
      \<Longrightarrow> session c cleaned (w\<lparr>bdrv_states := devices, rt_clock := now,
                         mig_file := (mig_file w)\<lparr>bytes_xfer := sent\<rparr>\<rparr> # w # tr)"

section \<open>Sample states\<close>

text \<open>
  Concrete states on which the theorems below are exercised: a geometry with 16-byte
  sectors and two sectors per chunk (32-byte chunks), and one writable device
  \<open>hda\<close> of three sectors, that is one and a half chunks.
\<close>

definition small_consts :: bdrv_consts where
  "small_consts = \<lparr>BDRV_SECTOR_BITS = 4, BDRV_SECTORS_PER_DIRTY_CHUNK = 2\<rparr>"

definition hda :: BlockDriverState where
  "hda = \<lparr>device_name = [0x68, 0x64, 0x61], bs_length = 48, bs_read_only = False,
           dirty_tracking = True, dirty_chunks = {}, in_use = True, drive_refs = 1,
           is_allocated_probe = (\<lambda>s. (True, 1)),
           read_outcome = (\<lambda>s n. (0, replicate (nat n * 16) 7)),
           write_ret = 0, written = []\<rparr>"

definition hda_cursor :: BlkMigDevState where
  "hda_cursor = \<lparr>bs = 0, bmds_bulk_completed = 0, bmds_shared_base = 0, bmds_sparse_enable = 1,
      cur_sector = 0, cur_dirty = 0, completed_sectors = 0, total_sectors = 3,
      aio_bitmap = (\<lambda>i. 0)\<rparr>"

definition idle_file :: QEMUFile where
  "idle_file = \<lparr>wire = [], flushed = 0, bytes_xfer = 0, xfer_limit = 1000, rd = [],
      last_error = 0\<rparr>"

definition sample_world :: world where
  "sample_world = \<lparr>blk_enable = 1, shared_base = 0, sparse_enable = 1,
      bmds_list = [hda_cursor], blk_list = [], submitted = 0, read_done = 0, transferred = 0,
      total_sector_sum = 3, prev_progress = - 1, bulk_completed = 0, total_time = ld_of_int 0,
      prev_time_offset = ld_of_int 0, reads = 0,
      total_blocks = 0, zero_blocks = 0, bulk_blocks = 0, mig_file = idle_file,
      bdrv_states = [hda], aio_pending = [], rt_clock = 0, migrate_max_downtime = ld_of_int 30000000,
      heap_junk = (\<lambda>i. 0xAA)\<rparr>"

definition zero_chunk :: BlkMigBlock where
  "zero_chunk = \<lparr>buf = replicate 32 0, bmds = 0, sector = 0, nr_sectors = 2, ret = 0\<rparr>"

definition data_chunk :: BlkMigBlock where
  "data_chunk = \<lparr>buf = replicate 32 7, bmds = 0, sector = 2, nr_sectors = 1, ret = 0\<rparr>"

definition bulk_done_world :: world where
  "bulk_done_world = sample_world\<lparr>bmds_list := [hda_cursor\<lparr>bmds_bulk_completed := 1\<rparr>],
      bulk_completed := 1\<rparr>"

text \<open>
  States at the geometry of \<open>qemu_consts\<close>: the device \<open>vda\<close> of 3072 sectors, one
  and a half chunks of 1 MiB, its cursor, and a world that migrates it.
\<close>

definition vda :: BlockDriverState where
  "vda = \<lparr>device_name = [0x76, 0x64, 0x61], bs_length = 1572864, bs_read_only = False,
           dirty_tracking = True, dirty_chunks = {}, in_use = True, drive_refs = 1,
           is_allocated_probe = (\<lambda>s. (True, 1)),
           read_outcome = (\<lambda>s n. (0, replicate (nat n * 512) 7)),
           write_ret = 0, written = []\<rparr>"

definition vda_cursor :: BlkMigDevState where
  "vda_cursor = \<lparr>bs = 0, bmds_bulk_completed = 0, bmds_shared_base = 0, bmds_sparse_enable = 0,
      cur_sector = 0, cur_dirty = 0, completed_sectors = 0, total_sectors = 3072,
      aio_bitmap = (\<lambda>i. 0)\<rparr>"

definition vda_world :: world where
  "vda_world = \<lparr>blk_enable = 1, shared_base = 0, sparse_enable = 0,
      bmds_list = [vda_cursor], blk_list = [], submitted = 0, read_done = 0, transferred = 0,
      total_sector_sum = 3072, prev_progress = - 1, bulk_completed = 0, total_time = ld_of_int 0,
      prev_time_offset = ld_of_int 0, reads = 0,
      total_blocks = 0, zero_blocks = 0, bulk_blocks = 0,
      mig_file = idle_file\<lparr>xfer_limit := 33554432\<rparr>,
      bdrv_states = [vda], aio_pending = [], rt_clock = 0, migrate_max_downtime = ld_of_int 30000000,
      heap_junk = (\<lambda>i. 0xAA)\<rparr>"

definition failed_read :: BlkMigBlock where
  "failed_read = \<lparr>buf = [], bmds = 0, sector = 0, nr_sectors = 2048, ret = - 5\<rparr>"

definition throttled_world :: world where
  "throttled_world = vda_world\<lparr>blk_list := [failed_read], read_done := 1,
      mig_file := idle_file\<lparr>xfer_limit := 33554432, bytes_xfer := 33554433\<rparr>\<rparr>"

definition unthrottled_world :: world where
  "unthrottled_world = vda_world\<lparr>blk_list := [failed_read], read_done := 1\<rparr>"

definition redirtied_world :: world where
  "redirtied_world = vda_world\<lparr>bulk_completed := 1,
      bmds_list := [vda_cursor\<lparr>bmds_bulk_completed := 1, cur_sector := 3072,
                                 completed_sectors := 3072\<rparr>],
      bdrv_states := [vda\<lparr>dirty_chunks := {0}\<rparr>]\<rparr>"

definition converging_world :: world where
  "converging_world = redirtied_world\<lparr>reads := 2, total_time := ld_of_int 2000000\<rparr>"

text \<open>
  A device of 29 chunks, all of them dirty, after 29 reads that took 30 ms in all, with
  30 ms of downtime allowed.
\<close>

definition boundary_world :: world where
  "boundary_world = vda_world\<lparr>bulk_completed := 1,
      bmds_list := [vda_cursor\<lparr>bmds_bulk_completed := 1, cur_sector := 59392,
                                 completed_sectors := 59392, total_sectors := 59392\<rparr>],
      bdrv_states := [vda\<lparr>bs_length := 30408704, dirty_chunks := {0..28}\<rparr>],
      total_sector_sum := 59392, reads := 29, total_time := ld_of_int 30000000\<rparr>"

definition redirtied_after_async :: world where
  "redirtied_after_async = snd (the (mig_save_device_dirty qemu_consts 0 1 redirtied_world))"

definition clean_world :: world where
  "clean_world = vda_world\<lparr>bulk_completed := 1,
      bmds_list := [vda_cursor\<lparr>bmds_bulk_completed := 1, cur_sector := 3072,
                                 completed_sectors := 3072\<rparr>]\<rparr>"

definition scanned_world :: world where
  "scanned_world = clean_world\<lparr>bmds_list := [vda_cursor\<lparr>bmds_bulk_completed := 1,
      cur_sector := 3072, completed_sectors := 3072, cur_dirty := 4096\<rparr>]\<rparr>"

definition after_iterate :: world where
  "after_iterate = snd (the (block_save_iterate qemu_consts clean_world))"

definition after_bulk :: world where
  "after_bulk = snd (the (mig_save_device_bulk qemu_consts 0 vda_world))"

text \<open>
  A short session on \<open>hda\<close>: the state before setup, after setup, after one bulk step,
  after the completion of the read it submitted, and after a flush.
\<close>

definition session_idle :: world where
  "session_idle = blk_mig_init sample_world"

definition session_started :: world where
  "session_started = snd (the (block_save_setup small_consts session_idle))"

definition session_bulk :: world where
  "session_bulk = snd (the (blk_mig_save_bulked_block small_consts session_started))"

definition session_completed :: world where
  "session_completed = the (aio_complete small_consts 0 session_bulk)"

definition session_flushed :: world where
  "session_flushed = snd (the (flush_blks small_consts session_completed))"

text \<open>
  The same session carried on where the loop of \<^verbatim>\<open>block_save_iterate\<close> goes on with
  bulk steps: the second bulk step reads the last chunk, the third finds the bulk phase
  over and the loop sets \<open>bulk_completed\<close>. Then the guest writes to chunk 0
  (\<open>guest_write\<close>: the block layer sets the dirty bit of the chunk), a dirty step runs,
  the block layer completes the oldest outstanding read, the guest writes to chunk 0
  again, and a second dirty step runs. \<open>outstanding\<close> lists the first sector and the
  length of the reads the block layer has not completed.
\<close>

definition guest_write :: "int \<Rightarrow> world \<Rightarrow> world" where
  "guest_write chunk w =
     w\<lparr>bdrv_states := (bdrv_states w)
         [0 := (bdrv_states w ! 0)
            \<lparr>dirty_chunks := insert chunk (dirty_chunks (bdrv_states w ! 0))\<rparr>]\<rparr>"

definition outstanding :: "world \<Rightarrow> (int \<times> int) list" where
  "outstanding w = map (\<lambda>r. (sector (snd r), nr_sectors (snd r))) (aio_pending w)"

definition bulk_second :: world where
  "bulk_second = snd (the (blk_mig_save_bulked_block small_consts session_bulk))"

definition bulk_third :: world where
  "bulk_third = snd (the (blk_mig_save_bulked_block small_consts bulk_second))"

definition bulk_finished :: world where
  "bulk_finished = bulk_third\<lparr>bulk_completed := 1\<rparr>"

definition dirty_first :: world where
  "dirty_first = snd (the (blk_mig_save_dirty_block small_consts 1 (guest_write 0 bulk_finished)))"

definition bulk_read_done :: world where
  "bulk_read_done = the (aio_complete small_consts 0 dirty_first)"

definition dirty_second :: world where
  "dirty_second = snd (the (blk_mig_save_dirty_block small_consts 1 (guest_write 0 bulk_read_done)))"

text \<open>
  The session of \<open>session_started\<close> carried on by the hooks instead: a call of
  \<^verbatim>\<open>block_save_iterate\<close> right after the setup.
\<close>

definition session_iterated :: world where
  "session_iterated = snd (the (block_save_iterate small_consts session_started))"

text \<open>
  The receiving side: the frame of the non-zero last chunk of \<open>hda\<close> (sector 2, one
  sector long), the frame of an all-zero first chunk sent after the bulk phase, and a
  receiver whose input holds both frames and an end-of-stream marker.
\<close>

definition data_frame :: "u8 list" where
  "data_frame = wire (mig_file (blk_send small_consts data_chunk sample_world))"

definition zero_frame :: "u8 list" where
  "zero_frame = wire (mig_file (blk_send small_consts zero_chunk bulk_done_world))"

definition receiver_world :: world where
  "receiver_world = sample_world\<lparr>mig_file := idle_file\<lparr>rd := data_frame @ zero_frame @ be64 2\<rparr>\<rparr>"

definition receiver_locals :: block_load_locals where
  "receiver_locals = \<lparr>bs_prev = None, ld_total_sectors = 0,
      ld_buf = g_malloc receiver_world (BLOCK_SIZE small_consts), buf_is_zeroed = 0\<rparr>"

text \<open>
  The receiver after the first frame, the locals of the loop at that point, and the
  receiver after the second frame.
\<close>

definition receiver_after_data :: world where
  "receiver_after_data = snd (block_load_frame small_consts receiver_locals receiver_world)"

definition locals_after_data :: block_load_locals where
  "locals_after_data = \<lparr>bs_prev = Some 0, ld_total_sectors = 3, ld_buf = replicate 32 7,
      buf_is_zeroed = 0\<rparr>"

definition receiver_after_zero :: world where
  "receiver_after_zero = snd (block_load_frame small_consts locals_after_data receiver_after_data)"

definition redirtied_hda_world :: world where
  "redirtied_hda_world = bulk_done_world\<lparr>bdrv_states := [hda\<lparr>dirty_chunks := {0}\<rparr>]\<rparr>"

definition after_iterate_hda :: world where
  "after_iterate_hda = snd (the (block_save_iterate small_consts redirtied_hda_world))"

section \<open>Zero-block detection\<close>

lemma replicate_eq_all:
  "length ys = n \<Longrightarrow> (replicate n x = ys) = list_all (\<lambda>b. b = x) ys"
proof
  assume r: "replicate n x = ys"
  have "list_all (\<lambda>b. b = x) (replicate n x)" by (simp add: list_all_iff)
  then show "list_all (\<lambda>b. b = x) ys" using r by simp
next
  assume "length ys = n" and "list_all (\<lambda>b. b = x) ys"
  then show "replicate n x = ys" by (auto simp: list_all_iff replicate_length_same)
qed

lemma is_zero_vecs_iff:
  "length p = 16 * n \<Longrightarrow> is_zero_vecs n p = (if list_all (\<lambda>b. b = 0) p then 1 else 0)"
proof (induction n arbitrary: p)
  case 0
  then show ?case by simp
next
  case (Suc n)
  have l: "length (drop 16 p) = 16 * n" using Suc.prems by simp
  have t: "length (take 16 p) = 16" using Suc.prems by simp
  have "list_all (\<lambda>b. b = 0) (take 16 p @ drop 16 p) =
        (list_all (\<lambda>b. b = 0) (take 16 p) \<and> list_all (\<lambda>b. b = 0) (drop 16 p))"
    by (rule list_all_append)
  then have "list_all (\<lambda>b. b = 0) p =
        (list_all (\<lambda>b. b = 0) (take 16 p) \<and> list_all (\<lambda>b. b = 0) (drop 16 p))"
    by (simp only: append_take_drop_id)
  then show ?case
    using Suc.IH [OF l] replicate_eq_all [OF t, of 0] by (simp add: ALL_EQ_def)
qed


lemma block_size_vecs:
  "4 \<le> BDRV_SECTOR_BITS c \<Longrightarrow> 16 * nat (BLOCK_SIZE c div 16) = nat (BLOCK_SIZE c)"
proof -
  assume a: "4 \<le> BDRV_SECTOR_BITS c"
  obtain k where k: "BDRV_SECTOR_BITS c = 4 + k" using a by (metis le_Suc_ex)
  have "BLOCK_SIZE c = 16 * (BDRV_SECTORS_PER_DIRTY_CHUNK c * 2 ^ k)"
    by (simp add: BLOCK_SIZE_def push_bit_eq_mult k power_add)
  then show ?thesis by (simp add: nat_mult_distrib)
qed

lemma is_zero_blk_iff:
  assumes "4 \<le> BDRV_SECTOR_BITS c" and "int (length p) = BLOCK_SIZE c"
  shows "is_zero_blk c p = (if list_all (\<lambda>b. b = 0) p then 1 else 0)"
proof -
  have "length p = 16 * nat (BLOCK_SIZE c div 16)"
    using block_size_vecs [OF assms(1)] assms(2) by simp
  then show ?thesis unfolding is_zero_blk_def by (rule is_zero_vecs_iff)
qed

lemma length_be64: "length (be64 v) = 8" by (simp add: be64_def)


section \<open>The frame encoder\<close>

text \<open>
  Claim C5. \<^verbatim>\<open>blk_send\<close> leaves the transport untouched exactly when the buffer is all
  zero, the owning device has \<^verbatim>\<open>sparse_enable\<close> set and its \<^verbatim>\<open>bulk_completed\<close> is still
  0; in every other case it appends a non-empty frame to the wire.
\<close>

theorem blk_send_elides_iff:
  assumes "4 \<le> BDRV_SECTOR_BITS c" and "int (length (buf b)) = BLOCK_SIZE c"
  shows "if list_all (\<lambda>b. b = 0) (buf b) \<and> bmds_sparse_enable (bmds_list w ! bmds b) \<noteq> 0
            \<and> bmds_bulk_completed (bmds_list w ! bmds b) = 0
         then mig_file (blk_send c b w) = mig_file w
         else \<exists>frame. frame \<noteq> [] \<and> wire (mig_file (blk_send c b w)) = wire (mig_file w) @ frame"
proof -
  have z: "is_zero_blk c (buf b) = (if list_all (\<lambda>b. b = 0) (buf b) then 1 else 0)"
    using assms by (rule is_zero_blk_iff)
  have ne: "be64 v \<noteq> []" for v by (simp add: be64_def)
  show ?thesis
    by (simp add: blk_send_def Let_def z qemu_put_be64_def qemu_put_byte_def
        qemu_put_buffer_def qemu_fflush_def length_be64 ne)
qed

theorem blk_send_elides_iff_witness:
  "mig_file (blk_send small_consts zero_chunk sample_world) = mig_file sample_world
   \<and> wire (mig_file (blk_send small_consts data_chunk sample_world)) \<noteq> []"
proof -
  have bits: "4 \<le> BDRV_SECTOR_BITS small_consts" by (simp add: small_consts_def)
  have lz: "int (length (buf zero_chunk)) = BLOCK_SIZE small_consts"
    by (simp add: small_consts_def zero_chunk_def BLOCK_SIZE_def)
  have ld: "int (length (buf data_chunk)) = BLOCK_SIZE small_consts"
    by (simp add: small_consts_def data_chunk_def BLOCK_SIZE_def)
  have cz: "list_all (\<lambda>b. b = 0) (buf zero_chunk)
      \<and> bmds_sparse_enable (bmds_list sample_world ! bmds zero_chunk) \<noteq> 0
      \<and> bmds_bulk_completed (bmds_list sample_world ! bmds zero_chunk) = 0"
    by (simp add: zero_chunk_def sample_world_def hda_cursor_def list_all_iff)
  have cd: "\<not> list_all (\<lambda>b. b = 0) (buf data_chunk)"
    by (simp add: data_chunk_def list_all_iff)
  have one: "mig_file (blk_send small_consts zero_chunk sample_world) = mig_file sample_world"
    using blk_send_elides_iff [OF bits lz, of sample_world] cz by simp
  have two: "wire (mig_file (blk_send small_consts data_chunk sample_world)) \<noteq> []"
    using blk_send_elides_iff [OF bits ld, of sample_world] cd by auto
  show ?thesis using one two by simp
qed

text \<open>
  Claim C6. A frame that is not elided is the big-endian 64-bit header
  \<open>(sector << BDRV_SECTOR_BITS) | DEVICE_BLOCK\<close>, with \<open>ZERO_BLOCK\<close> or'd in exactly when
  the buffer is all zero, one byte holding the length of the device name, the name
  without a NUL, and then the whole buffer of \<open>BLOCK_SIZE\<close> bytes when the buffer is
  not all zero, whatever \<open>nr_sectors\<close> is; for an all-zero buffer nothing follows the
  name and the stream is flushed up to its end.
\<close>

theorem blk_send_frame_layout:
  assumes "4 \<le> BDRV_SECTOR_BITS c" and "int (length (buf b)) = BLOCK_SIZE c"
    and "length (device_name (bdrv_states w ! bs (bmds_list w ! bmds b))) < 256"
    and "\<not> (list_all (\<lambda>b. b = 0) (buf b) \<and> bmds_sparse_enable (bmds_list w ! bmds b) \<noteq> 0
            \<and> bmds_bulk_completed (bmds_list w ! bmds b) = 0)"
  shows "wire (mig_file (blk_send c b w)) =
           wire (mig_file w)
           @ be64 (word_of_int (push_bit (BDRV_SECTOR_BITS c) (sector b)
                     OR BLK_MIG_FLAG_DEVICE_BLOCK
                     OR (if list_all (\<lambda>b. b = 0) (buf b) then BLK_MIG_FLAG_ZERO_BLOCK else 0)))
           @ [of_nat (length (device_name (bdrv_states w ! bs (bmds_list w ! bmds b))))]
           @ device_name (bdrv_states w ! bs (bmds_list w ! bmds b))
           @ (if list_all (\<lambda>b. b = 0) (buf b) then [] else buf b)
         \<and> unat (of_nat (length (device_name (bdrv_states w ! bs (bmds_list w ! bmds b)))) :: u8)
             = length (device_name (bdrv_states w ! bs (bmds_list w ! bmds b)))
         \<and> int (length (buf b)) = BLOCK_SIZE c
         \<and> flushed (mig_file (blk_send c b w)) =
             (if list_all (\<lambda>b. b = 0) (buf b) then length (wire (mig_file (blk_send c b w)))
              else flushed (mig_file w))"
proof -
  have z: "is_zero_blk c (buf b) = (if list_all (\<lambda>b. b = 0) (buf b) then 1 else 0)"
    using assms(1,2) by (rule is_zero_blk_iff)
  have n: "unat (of_nat (length (device_name (bdrv_states w ! bs (bmds_list w ! bmds b)))) :: u8)
             = length (device_name (bdrv_states w ! bs (bmds_list w ! bmds b)))"
    using assms(3) by (simp add: unat_of_nat)
  have t: "take (nat (BLOCK_SIZE c)) (buf b) = buf b"
    using assms(2) by simp
  show ?thesis
    using assms(4) n t assms(2)
    by (auto simp add: blk_send_def Let_def z qemu_put_be64_def qemu_put_byte_def
        qemu_put_buffer_def qemu_fflush_def length_be64)
qed

theorem blk_send_frame_layout_witness:
  "wire (mig_file (blk_send small_consts data_chunk sample_world)) =
     [0, 0, 0, 0, 0, 0, 0, 0x21, 3, 0x68, 0x64, 0x61] @ replicate 32 7
   \<and> flushed (mig_file (blk_send small_consts data_chunk sample_world)) = 0
   \<and> wire (mig_file (blk_send small_consts zero_chunk bulk_done_world)) =
     [0, 0, 0, 0, 0, 0, 0, 0x09, 3, 0x68, 0x64, 0x61]
   \<and> flushed (mig_file (blk_send small_consts zero_chunk bulk_done_world)) = 12"
proof -
  have bits: "4 \<le> BDRV_SECTOR_BITS small_consts" by (simp add: small_consts_def)
  have lz: "int (length (buf zero_chunk)) = BLOCK_SIZE small_consts"
    by (simp add: small_consts_def zero_chunk_def BLOCK_SIZE_def)
  have ld: "int (length (buf data_chunk)) = BLOCK_SIZE small_consts"
    by (simp add: small_consts_def data_chunk_def BLOCK_SIZE_def)
  have nd: "length (device_name (bdrv_states sample_world ! bs (bmds_list sample_world ! bmds data_chunk))) < 256"
    by (simp add: sample_world_def hda_cursor_def data_chunk_def hda_def)
  have nz: "length (device_name (bdrv_states bulk_done_world ! bs (bmds_list bulk_done_world ! bmds zero_chunk))) < 256"
    by (simp add: bulk_done_world_def sample_world_def hda_cursor_def zero_chunk_def hda_def)
  have cd: "\<not> (list_all (\<lambda>b. b = 0) (buf data_chunk)
       \<and> bmds_sparse_enable (bmds_list sample_world ! bmds data_chunk) \<noteq> 0
       \<and> bmds_bulk_completed (bmds_list sample_world ! bmds data_chunk) = 0)"
    by (simp add: data_chunk_def list_all_iff)
  have cz: "\<not> (list_all (\<lambda>b. b = 0) (buf zero_chunk)
       \<and> bmds_sparse_enable (bmds_list bulk_done_world ! bmds zero_chunk) \<noteq> 0
       \<and> bmds_bulk_completed (bmds_list bulk_done_world ! bmds zero_chunk) = 0)"
    by (simp add: bulk_done_world_def sample_world_def hda_cursor_def zero_chunk_def)
  have zd: "\<not> list_all (\<lambda>b. b = 0) (buf data_chunk)" by (simp add: data_chunk_def list_all_iff)
  have zz: "list_all (\<lambda>b. b = 0) (buf zero_chunk)" by (simp add: zero_chunk_def list_all_iff)
  have one: "wire (mig_file (blk_send small_consts data_chunk sample_world)) =
     [0, 0, 0, 0, 0, 0, 0, 0x21, 3, 0x68, 0x64, 0x61] @ replicate 32 7
   \<and> flushed (mig_file (blk_send small_consts data_chunk sample_world)) = 0"
    using blk_send_frame_layout [OF bits ld nd cd] zd
    by (simp add: sample_world_def hda_cursor_def hda_def data_chunk_def small_consts_def
        idle_file_def be64_def BLK_MIG_FLAG_DEVICE_BLOCK_def)
  have two: "wire (mig_file (blk_send small_consts zero_chunk bulk_done_world)) =
     [0, 0, 0, 0, 0, 0, 0, 0x09, 3, 0x68, 0x64, 0x61]
   \<and> flushed (mig_file (blk_send small_consts zero_chunk bulk_done_world)) = 12"
    using blk_send_frame_layout [OF bits lz nz cz] zz
    by (simp add: bulk_done_world_def sample_world_def hda_cursor_def hda_def zero_chunk_def
        small_consts_def idle_file_def be64_def BLK_MIG_FLAG_DEVICE_BLOCK_def
        BLK_MIG_FLAG_ZERO_BLOCK_def)
  show ?thesis using one two by simp
qed

section \<open>Parameters and activation\<close>

text \<open>
  Claim C9. After \<^verbatim>\<open>block_set_params\<close> with \<open>shared\<close> or \<open>sparse\<close> true,
  \<^verbatim>\<open>block_is_active\<close> answers true, whatever \<open>blk\<close> was.
\<close>

theorem block_set_params_implies_active:
  "shared params \<or> sparse params \<Longrightarrow> block_is_active (block_set_params params w)"
  by (cases "blk params") (auto simp: block_set_params_def block_is_active_def int_of_bool_def Let_def)

theorem block_set_params_implies_active_witness:
  "block_is_active (block_set_params \<lparr>blk = False, shared = False, sparse = True\<rparr> sample_world)
   \<and> block_is_active (block_set_params \<lparr>blk = False, shared = True, sparse = False\<rparr> sample_world)"
  using block_set_params_implies_active [of "\<lparr>blk = False, shared = False, sparse = True\<rparr>" sample_world]
    block_set_params_implies_active [of "\<lparr>blk = False, shared = True, sparse = False\<rparr>" sample_world]
  by simp

section \<open>The send path\<close>

text \<open>
  Claim C10, as amended. When the block at the head of \<open>blk_list\<close> carries a negative
  result code, \<^verbatim>\<open>flush_blks\<close> leaves the whole state as it is (the block stays at the
  head, nothing is freed, \<open>read_done\<close> and \<open>transferred\<close> keep their values); it returns
  that code when the transport is not over its rate limit, and 0 when it is, since the
  rate limit is tested first.
\<close>

theorem flush_blks_failed_head:
  assumes "blk_list w = b # rest" and "ret b < 0"
  shows "flush_blks c w = Some (if qemu_file_rate_limit (mig_file w) then 0 else ret b, w)"
  by (subst flush_blks.simps) (simp add: assms)

theorem flush_blks_failed_head_witness:
  "flush_blks qemu_consts unthrottled_world = Some (- 5, unthrottled_world)"
proof -
  have q: "blk_list unthrottled_world = failed_read # []"
    by (simp add: unthrottled_world_def vda_world_def)
  have r: "ret failed_read < 0" by (simp add: failed_read_def)
  have l: "\<not> qemu_file_rate_limit (mig_file unthrottled_world)"
    by (simp add: unthrottled_world_def vda_world_def qemu_file_rate_limit_def idle_file_def)
  show ?thesis using flush_blks_failed_head [OF q r, of qemu_consts] l
    by (simp add: failed_read_def)
qed

text \<open>
  The claim as stated fails for a throttled transport: the head carries \<open>-5\<close> and
  \<^verbatim>\<open>flush_blks\<close> returns 0.
\<close>

theorem flush_blks_throttled_counterexample:
  "ret (hd (blk_list throttled_world)) = - 5
   \<and> flush_blks qemu_consts throttled_world = Some (0, throttled_world)"
proof -
  have q: "blk_list throttled_world = [failed_read]"
    by (simp add: throttled_world_def vda_world_def)
  have l: "qemu_file_rate_limit (mig_file throttled_world)"
    by (simp add: throttled_world_def vda_world_def qemu_file_rate_limit_def idle_file_def)
  have "flush_blks qemu_consts throttled_world = Some (0, throttled_world)"
    by (subst flush_blks.simps) (simp add: q l)
  then show ?thesis using q by (simp add: failed_read_def)
qed

section \<open>The convergence test\<close>

lemma fold_sum_list:
  "fold (\<lambda>d a. a + f d) xs a0 = (a0::int) + (\<Sum>d\<leftarrow>xs. f d)"
  by (induction xs arbitrary: a0) simp_all

lemma get_remaining_dirty_sum:
  "get_remaining_dirty c w = (\<Sum>d\<leftarrow>bmds_list w. bdrv_get_dirty_count w (bs d)) * BLOCK_SIZE c"
  by (simp add: get_remaining_dirty_def fold_sum_list)

text \<open>
  The claim as stated fails in two ways. With the bulk phase completed, a chunk dirty
  and no read time accumulated, the assertion of \<^verbatim>\<open>compute_read_bwidth\<close> fails and the
  function returns neither true nor false. With 29 chunks dirty, 29 reads completed in
  30000000 ns and a downtime of 30000000 ns, the remaining bytes divided by the
  throughput are exactly the downtime, so the claim's inequality holds; the function
  rounds \<open>29 / 30000000\<close> and then the quotient, gets one unit in the last place more
  than 30000000, and returns 0.
\<close>

theorem is_stage2_completed_counterexample:
  "bulk_completed redirtied_world = 1
   \<and> (\<Sum>d\<leftarrow>bmds_list redirtied_world. bdrv_get_dirty_count redirtied_world (bs d)) = 1
   \<and> total_time redirtied_world = ld_of_int 0
   \<and> is_stage2_completed qemu_consts redirtied_world = None
   \<and> bulk_completed boundary_world = 1
   \<and> (\<Sum>d\<leftarrow>bmds_list boundary_world. bdrv_get_dirty_count boundary_world (bs d)) = 29
   \<and> BLOCK_SIZE qemu_consts = 1048576
   \<and> reads boundary_world = 29
   \<and> ld_value (total_time boundary_world) = Some 30000000
   \<and> ld_value (migrate_max_downtime boundary_world) = Some 30000000
   \<and> real_of_int (29 * 1048576) / (real_of_int 29 * real_of_int 1048576 / 30000000)
        \<le> (30000000 :: real)
   \<and> ld_div (ld_of_int (29 * 1048576))
        (ld_mul (ld_div (ld_of_int 29) (ld_of_int 30000000)) (ld_of_int 1048576))
        = Finite False (30000000 * 2 ^ 39 + 1) (- 39)
   \<and> is_stage2_completed qemu_consts boundary_world = Some 0"
proof -
  have z: "ld_is_zero (ld_of_int 0)" by code_simp
  have a: "bulk_completed redirtied_world = 1
      \<and> (\<Sum>d\<leftarrow>bmds_list redirtied_world. bdrv_get_dirty_count redirtied_world (bs d)) = 1
      \<and> total_time redirtied_world = ld_of_int 0"
    by (simp add: redirtied_world_def vda_world_def vda_cursor_def bdrv_get_dirty_count_def)
  have bs: "BLOCK_SIZE qemu_consts = 1048576" by (simp add: BLOCK_SIZE_def qemu_consts_def)
  have one: "is_stage2_completed qemu_consts redirtied_world = None"
    using a z by (simp add: is_stage2_completed_def get_remaining_dirty_sum bs compute_read_bwidth_def)
  have c29: "card {0..28::int} = 29" by simp
  have b: "bulk_completed boundary_world = 1
      \<and> (\<Sum>d\<leftarrow>bmds_list boundary_world. bdrv_get_dirty_count boundary_world (bs d)) = 29
      \<and> reads boundary_world = 29
      \<and> total_time boundary_world = ld_of_int 30000000
      \<and> migrate_max_downtime boundary_world = ld_of_int 30000000"
    by (simp add: boundary_world_def vda_world_def vda_cursor_def bdrv_get_dirty_count_def c29)
  have v: "ld_of_int 30000000 = Finite False (30000000 * 2 ^ 39) (- 39)" by code_simp
  have val: "ld_value (ld_of_int 30000000) = Some 30000000"
    unfolding v by (simp add: ld_signed_def powr_minus)
  have nz: "\<not> ld_is_zero (ld_of_int 30000000)" by code_simp
  have q: "ld_div (ld_of_int (29 * 1048576))
        (ld_mul (ld_div (ld_of_int 29) (ld_of_int 30000000)) (ld_of_int 1048576))
        = Finite False (30000000 * 2 ^ 39 + 1) (- 39)"
    by code_simp
  have le: "\<not> ld_le (Finite False (30000000 * 2 ^ 39 + 1) (- 39)) (ld_of_int 30000000)"
    by code_simp
  have two: "is_stage2_completed qemu_consts boundary_world = Some 0"
    using b nz q le
    by (simp add: is_stage2_completed_def get_remaining_dirty_sum bs compute_read_bwidth_def)
  have ex: "real_of_int (29 * 1048576) / (real_of_int 29 * real_of_int 1048576 / 30000000)
        \<le> (30000000 :: real)"
    by simp
  show ?thesis using a one b bs val q two ex by simp
qed

text \<open>
  Claim C7, as amended. \<^verbatim>\<open>is_stage2_completed\<close> does not return when
  \<open>bulk_completed\<close> is 1, dirty bytes remain and the cumulative read time is zero: the
  assertion of \<^verbatim>\<open>compute_read_bwidth\<close> fails. In every other state it returns 1 if
  \<open>bulk_completed\<close> is 1 and either the remaining dirty bytes (the sum over the devices
  of the dirty chunk counts, times \<open>BLOCK_SIZE\<close>) are zero or the \<^verbatim>\<open>long double\<close>
  quotient of the remaining dirty bytes by \<open>(reads / total_time) * BLOCK_SIZE\<close>, each
  operation rounded to the format, compares at most the maximal downtime; and 0
  otherwise.
\<close>

theorem is_stage2_completed_iff:
  "is_stage2_completed c w =
     (if bulk_completed w = 1
         \<and> (\<Sum>d\<leftarrow>bmds_list w. bdrv_get_dirty_count w (bs d)) * BLOCK_SIZE c \<noteq> 0
         \<and> ld_is_zero (total_time w)
      then None
      else Some
        (if bulk_completed w = 1
            \<and> ((\<Sum>d\<leftarrow>bmds_list w. bdrv_get_dirty_count w (bs d)) * BLOCK_SIZE c = 0
                \<or> ld_le
                     (ld_div
                        (ld_of_int ((\<Sum>d\<leftarrow>bmds_list w. bdrv_get_dirty_count w (bs d)) * BLOCK_SIZE c))
                        (ld_mul (ld_div (ld_of_int (reads w)) (total_time w))
                           (ld_of_int (BLOCK_SIZE c))))
                     (migrate_max_downtime w))
         then 1 else 0))"
  by (simp add: is_stage2_completed_def Let_def compute_read_bwidth_def get_remaining_dirty_sum)

theorem is_stage2_completed_iff_witness:
  "is_stage2_completed qemu_consts converging_world = Some 1
   \<and> is_stage2_completed qemu_consts vda_world = Some 0"
proof -
  have bs: "BLOCK_SIZE qemu_consts = 1048576" by (simp add: BLOCK_SIZE_def qemu_consts_def)
  have v: "bulk_completed converging_world = 1
      \<and> (\<Sum>d\<leftarrow>bmds_list converging_world. bdrv_get_dirty_count converging_world (bs d)) = 1
      \<and> reads converging_world = 2
      \<and> total_time converging_world = ld_of_int 2000000
      \<and> migrate_max_downtime converging_world = ld_of_int 30000000"
    by (simp add: converging_world_def redirtied_world_def vda_world_def vda_cursor_def
        bdrv_get_dirty_count_def)
  have e: "\<not> ld_is_zero (ld_of_int 2000000)
      \<and> ld_le (ld_div (ld_of_int 1048576)
                 (ld_mul (ld_div (ld_of_int 2) (ld_of_int 2000000)) (ld_of_int 1048576)))
           (ld_of_int 30000000)"
    by code_simp
  have o: "bulk_completed vda_world = 0" by (simp add: vda_world_def)
  show ?thesis
    using is_stage2_completed_iff [of qemu_consts converging_world]
      is_stage2_completed_iff [of qemu_consts vda_world]
    by (simp add: v e bs o)
qed


section \<open>The in-flight bitmap\<close>

text \<open>
  Setting or clearing the bits of a range of chunks, read through the test of one
  bit: every chunk of the range ends up set (or cleared), in particular the chunk of
  the first sector.
\<close>

lemma c_div_nonneg [simp]: "0 \<le> a \<Longrightarrow> 0 < b \<Longrightarrow> c_div a b = a div b"
  by (simp add: c_div_def sgn_if)

lemma chunk_bit_iff: "chunk_bit bm chunk = bit (bm (nat (chunk div 64))) (nat (chunk mod 64))"
  by (simp add: chunk_bit_def and_exp_eq_0_iff_not_bit)

lemma mark_chunk_same:
  "chunk_bit (mark_chunk set_flag chunk bm) chunk = (set_flag \<noteq> 0)"
proof -
  have "nat (chunk mod 64) < 64" by simp
  then show ?thesis
    by (auto simp add: chunk_bit_iff mark_chunk_def Let_def bit_simps)
qed

lemma mark_chunk_set_keeps:
  "set_flag \<noteq> 0 \<Longrightarrow> chunk_bit bm ch \<Longrightarrow> chunk_bit (mark_chunk set_flag chunk bm) ch"
  by (auto simp add: chunk_bit_iff mark_chunk_def Let_def bit_simps)

lemma mark_chunk_clear_keeps:
  "set_flag = 0 \<Longrightarrow> \<not> chunk_bit bm ch \<Longrightarrow> \<not> chunk_bit (mark_chunk set_flag chunk bm) ch"
  by (auto simp add: chunk_bit_iff mark_chunk_def Let_def bit_simps)

lemma fold_mark_keeps:
  "chunk_bit bm ch = (set_flag \<noteq> 0) \<Longrightarrow> chunk_bit (fold (mark_chunk set_flag) chs bm) ch = (set_flag \<noteq> 0)"
proof (induction chs arbitrary: bm)
  case Nil
  then show ?case by simp
next
  case (Cons x xs)
  have "chunk_bit (mark_chunk set_flag x bm) ch = (set_flag \<noteq> 0)"
    using Cons.prems mark_chunk_set_keeps [of set_flag bm ch x]
      mark_chunk_clear_keeps [of set_flag bm ch x] by (cases "set_flag = 0") auto
  then show ?case using Cons.IH by simp
qed

lemma fold_mark_member:
  "ch \<in> set chs \<Longrightarrow> chunk_bit (fold (mark_chunk set_flag) chs bm) ch = (set_flag \<noteq> 0)"
proof (induction chs arbitrary: bm)
  case Nil
  then show ?case by simp
next
  case (Cons x xs)
  show ?case
  proof (cases "ch = x")
    case True
    then show ?thesis using fold_mark_keeps [OF mark_chunk_same] by simp
  next
    case False
    then show ?thesis using Cons by simp
  qed
qed

lemma bmds_set_aio_inflight_bitmap:
  "aio_bitmap (bmds_set_aio_inflight c d sector_num nb_sectors set_flag) =
     fold (mark_chunk set_flag)
       [c_div sector_num (BDRV_SECTORS_PER_DIRTY_CHUNK c) ..
        c_div (sector_num + nb_sectors - 1) (BDRV_SECTORS_PER_DIRTY_CHUNK c)] (aio_bitmap d)"
  by (simp add: bmds_set_aio_inflight_def Let_def)

lemma bmds_set_aio_inflight_first:
  assumes "0 < BDRV_SECTORS_PER_DIRTY_CHUNK c" and "0 \<le> sec" and "1 \<le> nr"
  shows "chunk_bit (aio_bitmap (bmds_set_aio_inflight c d sec nr set_flag))
           (sec div BDRV_SECTORS_PER_DIRTY_CHUNK c) = (set_flag \<noteq> 0)"
proof -
  have le: "sec div BDRV_SECTORS_PER_DIRTY_CHUNK c \<le> (sec + nr - 1) div BDRV_SECTORS_PER_DIRTY_CHUNK c"
    using assms by (intro zdiv_mono1) auto
  have m: "sec div BDRV_SECTORS_PER_DIRTY_CHUNK c
      \<in> set [c_div sec (BDRV_SECTORS_PER_DIRTY_CHUNK c) ..
              c_div (sec + nr - 1) (BDRV_SECTORS_PER_DIRTY_CHUNK c)]"
    using assms le by simp
  show ?thesis unfolding bmds_set_aio_inflight_bitmap by (rule fold_mark_member [OF m])
qed

lemma bmds_aio_inflight_chunk_bit:
  assumes "0 < BDRV_SECTORS_PER_DIRTY_CHUNK c" and "0 \<le> sec"
  shows "bmds_aio_inflight c w d sec =
      (if push_bit (BDRV_SECTOR_BITS c) sec < bdrv_getlength w (bs d)
          \<and> chunk_bit (aio_bitmap d) (sec div BDRV_SECTORS_PER_DIRTY_CHUNK c) then 1 else 0)"
  using assms by (simp add: bmds_aio_inflight_def Let_def)


lemma bs_length_update_dirty:
  "bs_length (xs[k := (xs ! k)\<lparr>dirty_chunks := S\<rparr>] ! j) = bs_length (xs ! j)"
proof (cases "k < length xs")
  case True
  then show ?thesis by (cases "j = k") simp_all
next
  case False
  then have "xs[k := (xs ! k)\<lparr>dirty_chunks := S\<rparr>] = xs" by (simp add: list_update_beyond)
  then show ?thesis by simp
qed

lemma bs_bmds_set_aio_inflight [simp]:
  "bs (bmds_set_aio_inflight c d sector_num nb_sectors set_flag) = bs d"
  by (simp add: bmds_set_aio_inflight_def Let_def)

lemma sector_inside_device:
  assumes "0 \<le> sec" and "sec < drop_bit n len"
  shows "push_bit n sec < (len::int)"
proof -
  have "sec + 1 \<le> len div 2 ^ n" using assms(2) by (simp add: drop_bit_eq_div)
  then have "(sec + 1) * 2 ^ n \<le> len div 2 ^ n * 2 ^ n" by (intro mult_right_mono) auto
  moreover have "len div 2 ^ n * 2 ^ n + len mod 2 ^ n = len" by (rule div_mult_mod_eq)
  moreover have "0 \<le> len mod (2 ^ n :: int)" by simp
  ultimately have "(sec + 1) * 2 ^ n \<le> len" by linarith
  moreover have "(sec + 1) * 2 ^ n = sec * 2 ^ n + (2 ^ n :: int)" by (simp add: algebra_simps)
  moreover have "0 < (2 ^ n :: int)" by simp
  ultimately have "sec * 2 ^ n < len" by linarith
  then show ?thesis by (simp add: push_bit_eq_mult)
qed

lemma redirtied_first_chunk:
  "mig_save_device_dirty qemu_consts 0 1 redirtied_world
     = Some (save_dirty_chunk qemu_consts 0 1 0 redirtied_world)"
  unfolding mig_save_device_dirty_def
  by (subst dirty_scan.simps)
     (simp add: redirtied_world_def vda_world_def vda_cursor_def vda_def qemu_consts_def
      bmds_aio_inflight_def chunk_bit_def bdrv_getlength_def bdrv_get_dirty_def)

lemma redirtied_after_async_eq:
  "redirtied_after_async = snd (save_dirty_chunk qemu_consts 0 1 0 redirtied_world)"
  by (simp add: redirtied_after_async_def redirtied_first_chunk)

lemma vda_bulk_read_not_marked:
  "mig_save_device_bulk qemu_consts 0 vda_world = Some (0, after_bulk)
   \<and> submitted vda_world = 0 \<and> submitted after_bulk = 1
   \<and> map (\<lambda>r. (fst r, sector (snd r), nr_sectors (snd r))) (aio_pending after_bulk) = [(0, 0, 2048)]
   \<and> bmds_aio_inflight qemu_consts after_bulk (bmds_list after_bulk ! 0) 0 = 0"
  unfolding after_bulk_def
  by (simp add: mig_save_device_bulk_def Let_def vda_world_def vda_cursor_def vda_def
      qemu_consts_def bdrv_aio_readv_def bdrv_reset_dirty_def bmds_aio_inflight_def chunk_bit_def
      bdrv_getlength_def qemu_get_clock_ns_def)

text \<open>
  What the three places that touch the bitmap do, for every state: an asynchronous
  read submitted in the dirty phase is queued with the block layer and sets the
  in-flight bit of its chunk; the completion callback clears the bit of the chunk of
  the read it completes, whichever phase submitted it; a submission of the bulk phase
  leaves every bitmap as it was.
\<close>

lemma save_dirty_chunk_sets_inflight:
  assumes spc: "0 < BDRV_SECTORS_PER_DIRTY_CHUNK c"
    and a: "i < length (bmds_list w) \<and> 0 \<le> sec \<and> sec < total_sectors (bmds_list w ! i)
           \<and> total_sectors (bmds_list w ! i)
               = drop_bit (BDRV_SECTOR_BITS c) (bdrv_getlength w (bs (bmds_list w ! i)))
           \<and> is_async \<noteq> 0"
  shows "map (\<lambda>r. (fst r, bmds (snd r), sector (snd r)))
                  (aio_pending (snd (save_dirty_chunk c i is_async sec w)))
                = map (\<lambda>r. (fst r, bmds (snd r), sector (snd r))) (aio_pending w)
                  @ [(bs (bmds_list w ! i), i, sec)]
         \<and> bmds_aio_inflight c (snd (save_dirty_chunk c i is_async sec w))
                   (bmds_list (snd (save_dirty_chunk c i is_async sec w)) ! i) sec = 1"
proof
  show "map (\<lambda>r. (fst r, bmds (snd r), sector (snd r)))
                  (aio_pending (snd (save_dirty_chunk c i is_async sec w)))
                = map (\<lambda>r. (fst r, bmds (snd r), sector (snd r))) (aio_pending w)
                  @ [(bs (bmds_list w ! i), i, sec)]"
    using a by (simp add: save_dirty_chunk_def Let_def bdrv_aio_readv_def bdrv_reset_dirty_def)
  have inside: "push_bit (BDRV_SECTOR_BITS c) sec < bdrv_getlength w (bs (bmds_list w ! i))"
    using a sector_inside_device by simp
  show "bmds_aio_inflight c (snd (save_dirty_chunk c i is_async sec w))
                   (bmds_list (snd (save_dirty_chunk c i is_async sec w)) ! i) sec = 1"
    using a inside spc
    by (simp add: save_dirty_chunk_def Let_def bdrv_aio_readv_def bdrv_reset_dirty_def
        bmds_aio_inflight_chunk_bit [OF spc] bdrv_getlength_def bs_length_update_dirty
        bmds_set_aio_inflight_first [OF spc])
qed

lemma blk_mig_read_cb_clears_inflight:
  assumes spc: "0 < BDRV_SECTORS_PER_DIRTY_CHUNK c"
    and a: "bmds b < length (bmds_list w) \<and> 0 \<le> sector b \<and> 1 \<le> nr_sectors b
           \<and> blk_mig_read_cb c b r w = Some w'"
  shows "bmds_aio_inflight c w' (bmds_list w' ! bmds b) (sector b) = 0"
proof -
  have l: "bmds_list w' ! bmds b
      = bmds_set_aio_inflight c (bmds_list w ! bmds b) (sector b) (nr_sectors b) 0"
    using a by (auto simp add: blk_mig_read_cb_def Let_def split: if_splits)
  show ?thesis
    using a bmds_set_aio_inflight_first [OF spc, of "sector b" "nr_sectors b" "bmds_list w ! bmds b" 0]
    by (simp add: l bmds_aio_inflight_chunk_bit [OF spc])
qed

lemma mig_save_device_bulk_keeps_bitmaps:
  assumes a: "mig_save_device_bulk c j w = Some (r, w')"
  shows "map aio_bitmap (bmds_list w') = map aio_bitmap (bmds_list w)"
proof -
  have upd: "map aio_bitmap (xs[j := d]) = map aio_bitmap xs"
    if "aio_bitmap d = aio_bitmap (xs ! j)" for xs :: "BlkMigDevState list" and d
  proof (cases "j < length xs")
    case True
    then show ?thesis using that by (simp add: map_update) (metis list_update_id nth_map)
  next
    case False
    then show ?thesis by (simp add: list_update_beyond)
  qed
  show ?thesis
    using a
    by (auto simp add: mig_save_device_bulk_def Let_def bdrv_aio_readv_def bdrv_reset_dirty_def
        upd split: option.splits if_splits)
qed

lemma chunk0_trace_runs:
  "\<not> Option.is_none (blk_mig_save_bulked_block small_consts session_started)
   \<and> fst (the (blk_mig_save_bulked_block small_consts session_started)) = 1
   \<and> \<not> Option.is_none (blk_mig_save_bulked_block small_consts session_bulk)
   \<and> fst (the (blk_mig_save_bulked_block small_consts session_bulk)) = 1
   \<and> \<not> Option.is_none (blk_mig_save_bulked_block small_consts bulk_second)
   \<and> fst (the (blk_mig_save_bulked_block small_consts bulk_second)) = 0
   \<and> \<not> Option.is_none (blk_mig_save_dirty_block small_consts 1 (guest_write 0 bulk_finished))
   \<and> fst (the (blk_mig_save_dirty_block small_consts 1 (guest_write 0 bulk_finished))) = 0
   \<and> \<not> Option.is_none (aio_complete small_consts 0 dirty_first)
   \<and> \<not> Option.is_none (blk_mig_save_dirty_block small_consts 1 (guest_write 0 bulk_read_done))
   \<and> fst (the (blk_mig_save_dirty_block small_consts 1 (guest_write 0 bulk_read_done))) = 0"
  by code_simp

lemma chunk0_trace_states:
  "outstanding session_bulk = [(0, 2)]
   \<and> bmds_aio_inflight small_consts session_bulk (bmds_list session_bulk ! 0) 0 = 0
   \<and> outstanding bulk_finished = [(0, 2), (2, 1)]
   \<and> bmds_aio_inflight small_consts bulk_finished (bmds_list bulk_finished ! 0) 0 = 0
   \<and> outstanding dirty_first = [(0, 2), (2, 1), (0, 2)]
   \<and> bmds_aio_inflight small_consts dirty_first (bmds_list dirty_first ! 0) 0 = 1
   \<and> reads dirty_first = 0
   \<and> cur_dirty (bmds_list dirty_first ! 0) = 0
   \<and> outstanding bulk_read_done = [(2, 1), (0, 2)]
   \<and> bmds_aio_inflight small_consts bulk_read_done (bmds_list bulk_read_done ! 0) 0 = 0
   \<and> reads bulk_read_done = 1
   \<and> outstanding dirty_second = [(2, 1), (0, 2), (0, 2)]
   \<and> reads dirty_second = 1"
  by code_simp

text \<open>
  Claim C4, on the code. In the quoted geometry a bulk step on a fresh device leaves
  the read of chunk 0 outstanding with the in-flight bit of chunk 0 clear. On the small
  device the same holds after the bulk phase, with both chunks being read. The guest
  then writes to chunk 0: the dirty step finds the bit clear, waits for nothing (no read
  has completed) and submits a second read of chunk 0 beside the first, setting the bit.
  The completion of the bulk read of chunk 0 clears the bit while the read of the dirty
  phase is still outstanding. The guest writes to chunk 0 once more: the next dirty step
  starts at chunk 0 again, finds the bit clear, waits for nothing (one read has
  completed, as before) and submits a third read of chunk 0 beside the second.
\<close>

theorem inflight_bit_not_exclusive:
  "mig_save_device_bulk qemu_consts 0 vda_world = Some (0, after_bulk)
   \<and> map (\<lambda>r. (fst r, sector (snd r), nr_sectors (snd r))) (aio_pending after_bulk) = [(0, 0, 2048)]
   \<and> bmds_aio_inflight qemu_consts after_bulk (bmds_list after_bulk ! 0) 0 = 0
   \<and> blk_mig_save_bulked_block small_consts session_started = Some (1, session_bulk)
   \<and> outstanding session_bulk = [(0, 2)]
   \<and> bmds_aio_inflight small_consts session_bulk (bmds_list session_bulk ! 0) 0 = 0
   \<and> blk_mig_save_bulked_block small_consts session_bulk = Some (1, bulk_second)
   \<and> blk_mig_save_bulked_block small_consts bulk_second = Some (0, bulk_third)
   \<and> bulk_finished = bulk_third\<lparr>bulk_completed := 1\<rparr>
   \<and> outstanding bulk_finished = [(0, 2), (2, 1)]
   \<and> bmds_aio_inflight small_consts bulk_finished (bmds_list bulk_finished ! 0) 0 = 0
   \<and> blk_mig_save_dirty_block small_consts 1 (guest_write 0 bulk_finished) = Some (0, dirty_first)
   \<and> outstanding dirty_first = [(0, 2), (2, 1), (0, 2)]
   \<and> bmds_aio_inflight small_consts dirty_first (bmds_list dirty_first ! 0) 0 = 1
   \<and> reads dirty_first = 0
   \<and> cur_dirty (bmds_list dirty_first ! 0) = 0
   \<and> aio_complete small_consts 0 dirty_first = Some bulk_read_done
   \<and> outstanding bulk_read_done = [(2, 1), (0, 2)]
   \<and> bmds_aio_inflight small_consts bulk_read_done (bmds_list bulk_read_done ! 0) 0 = 0
   \<and> reads bulk_read_done = 1
   \<and> blk_mig_save_dirty_block small_consts 1 (guest_write 0 bulk_read_done) = Some (0, dirty_second)
   \<and> outstanding dirty_second = [(2, 1), (0, 2), (0, 2)]
   \<and> reads dirty_second = 1"
proof -
  have some: "x = Some (fst (the x), snd (the x))" if "\<not> Option.is_none x"
    for x :: "(int \<times> world) option"
    using that by (cases x) simp_all
  have b1: "blk_mig_save_bulked_block small_consts session_started = Some (1, session_bulk)"
    using chunk0_trace_runs some [of "blk_mig_save_bulked_block small_consts session_started"]
    by (simp add: session_bulk_def)
  have b2: "blk_mig_save_bulked_block small_consts session_bulk = Some (1, bulk_second)"
    using chunk0_trace_runs some [of "blk_mig_save_bulked_block small_consts session_bulk"]
    by (simp add: bulk_second_def)
  have b3: "blk_mig_save_bulked_block small_consts bulk_second = Some (0, bulk_third)"
    using chunk0_trace_runs some [of "blk_mig_save_bulked_block small_consts bulk_second"]
    by (simp add: bulk_third_def)
  have d1: "blk_mig_save_dirty_block small_consts 1 (guest_write 0 bulk_finished)
      = Some (0, dirty_first)"
    using chunk0_trace_runs
      some [of "blk_mig_save_dirty_block small_consts 1 (guest_write 0 bulk_finished)"]
    by (simp add: dirty_first_def)
  have cp: "aio_complete small_consts 0 dirty_first = Some bulk_read_done"
  proof (cases "aio_complete small_consts 0 dirty_first")
    case None
    then show ?thesis using chunk0_trace_runs by simp
  next
    case (Some w)
    then show ?thesis by (simp add: bulk_read_done_def)
  qed
  have d2: "blk_mig_save_dirty_block small_consts 1 (guest_write 0 bulk_read_done)
      = Some (0, dirty_second)"
    using chunk0_trace_runs
      some [of "blk_mig_save_dirty_block small_consts 1 (guest_write 0 bulk_read_done)"]
    by (simp add: dirty_second_def)
  show ?thesis
    using vda_bulk_read_not_marked b1 b2 b3 d1 cp d2 chunk0_trace_states
    by (simp add: bulk_finished_def)
qed

section \<open>The dirty phase\<close>

text \<open>
  Claim C2, on the code. With chunk 0 of the device dirty and the dirty cursor at 0, the
  asynchronous dirty step returns 0, has the read of sectors 0 to 2047 submitted and
  the dirty bit of chunk 0 reset, and leaves the dirty cursor at 0: the \<^verbatim>\<open>break\<close> is
  taken before the cursor is moved past the chunk.
\<close>

theorem mig_save_device_dirty_keeps_cursor:
  "mig_save_device_dirty qemu_consts 0 1 redirtied_world = Some (0, redirtied_after_async)
   \<and> bdrv_get_dirty qemu_consts redirtied_world 0 0 = 1
   \<and> bdrv_get_dirty qemu_consts redirtied_after_async 0 0 = 0
   \<and> map (\<lambda>r. (sector (snd r), nr_sectors (snd r))) (aio_pending redirtied_after_async)
       = [(0, 2048)]
   \<and> cur_dirty (bmds_list redirtied_world ! 0) = 0
   \<and> cur_dirty (bmds_list redirtied_after_async ! 0) = 0"
  unfolding redirtied_after_async_def redirtied_first_chunk
  by (simp add: redirtied_world_def vda_world_def vda_cursor_def vda_def qemu_consts_def
      bdrv_get_dirty_def save_dirty_chunk_def Let_def
      bdrv_aio_readv_def bdrv_reset_dirty_def bmds_set_aio_inflight_def mark_chunk_def qemu_get_clock_ns_def)

section \<open>The iterate hook\<close>

lemmas clean_defs = clean_world_def vda_world_def vda_cursor_def vda_def qemu_consts_def
  idle_file_def

lemma clean_flush: "flush_blks qemu_consts clean_world = Some (0, clean_world)"
  by (subst flush_blks.simps) (simp add: clean_defs)

lemma clean_reset: "blk_mig_reset_dirty_cursor clean_world = clean_world"
  by (simp add: blk_mig_reset_dirty_cursor_def clean_defs)

lemma clean_scan: "mig_save_device_dirty qemu_consts 0 1 clean_world = Some (1, scanned_world)"
  unfolding mig_save_device_dirty_def
  apply (subst dirty_scan.simps)
  apply (subst dirty_scan.simps)
  apply (subst dirty_scan.simps)
  apply (simp add: clean_defs scanned_world_def bmds_aio_inflight_def chunk_bit_def bdrv_getlength_def bdrv_get_dirty_def)
  done

lemma clean_dirty_block: "blk_mig_save_dirty_block qemu_consts 1 clean_world = Some (1, scanned_world)"
proof -
  have l: "[0..<length (bmds_list clean_world)] = [0]" by (simp add: clean_defs)
  show ?thesis by (simp add: blk_mig_save_dirty_block_def l clean_scan)
qed

lemma clean_loop: "iterate_loop qemu_consts 0 clean_world = Some (1, scanned_world)"
  by (subst iterate_loop.simps)
     (simp add: clean_dirty_block, simp add: clean_defs BLOCK_SIZE_def qemu_file_get_rate_limit_def
        int32_def)

lemma scanned_cleanup:
  "blk_mig_cleanup qemu_consts scanned_world
     = Some (scanned_world\<lparr>bdrv_states := [vda\<lparr>dirty_tracking := False, in_use := False, drive_refs := 0\<rparr>],
          bmds_list := [], blk_list := []\<rparr>)"
  by (simp add: blk_mig_cleanup_def bdrv_drain_all_def scanned_world_def clean_defs
      set_dirty_tracking_def bdrv_set_dirty_tracking_def drive_put_ref_def bdrv_set_in_use_def)

lemma redirtied_hda_iterate:
  "\<not> Option.is_none (block_save_iterate small_consts redirtied_hda_world)
   \<and> fst (the (block_save_iterate small_consts redirtied_hda_world)) = 1
   \<and> bdrv_get_dirty small_consts redirtied_hda_world 0 0 = 1
   \<and> bdrv_get_dirty small_consts after_iterate_hda 0 0 = 0
   \<and> reads redirtied_hda_world = 0 \<and> reads after_iterate_hda = 1
   \<and> wire (mig_file after_iterate_hda) = [] \<and> blk_list after_iterate_hda = []"
  by code_simp

text \<open>
  Claim C3, on the code. With the bulk phase completed and no dirty chunk on the only
  device, the dirty step reports 1; \<^verbatim>\<open>block_save_iterate\<close> leaves its loop with that
  value in \<^verbatim>\<open>ret\<close>, takes the error exit, releases every device and returns 1: the queue
  is not drained again and no end-of-stream marker is put on the wire (the wire stays
  empty), although the convergence test would answer 1. With chunk 0 dirty the same
  exit is taken once the scan has passed the device: the chunk has been read and its
  dirty bit reset, and the cleanup frees the read block unsent.
\<close>

theorem block_save_iterate_no_dirty_chunk:
  "block_save_iterate qemu_consts clean_world = Some (1, after_iterate)
   \<and> wire (mig_file clean_world) = [] \<and> wire (mig_file after_iterate) = []
   \<and> length (bmds_list clean_world) = 1 \<and> bmds_list after_iterate = []
   \<and> is_stage2_completed qemu_consts clean_world = Some 1
   \<and> block_save_iterate small_consts redirtied_hda_world = Some (1, after_iterate_hda)
   \<and> bdrv_get_dirty small_consts redirtied_hda_world 0 0 = 1
   \<and> bdrv_get_dirty small_consts after_iterate_hda 0 0 = 0
   \<and> reads after_iterate_hda = 1
   \<and> wire (mig_file after_iterate_hda) = [] \<and> blk_list after_iterate_hda = []"
proof -
  have r: "block_save_iterate qemu_consts clean_world =
      Some (1, scanned_world\<lparr>bdrv_states := [vda\<lparr>dirty_tracking := False, in_use := False, drive_refs := 0\<rparr>],
          bmds_list := [], blk_list := []\<rparr>)"
    by (simp add: block_save_iterate_def clean_flush clean_reset clean_loop
        cleanup_and_return_def scanned_cleanup)
  have s: "is_stage2_completed qemu_consts clean_world = Some 1"
    by (simp add: is_stage2_completed_def get_remaining_dirty_def bdrv_get_dirty_count_def clean_defs)
  have h: "block_save_iterate small_consts redirtied_hda_world = Some (1, after_iterate_hda)"
    using redirtied_hda_iterate
    by (cases "block_save_iterate small_consts redirtied_hda_world")
       (auto simp add: after_iterate_hda_def)
  have one: "block_save_iterate qemu_consts clean_world = Some (1, after_iterate)
   \<and> wire (mig_file clean_world) = [] \<and> wire (mig_file after_iterate) = []
   \<and> length (bmds_list clean_world) = 1 \<and> bmds_list after_iterate = []"
    unfolding after_iterate_def r by (simp add: scanned_world_def clean_defs)
  show ?thesis using one s h redirtied_hda_iterate by simp
qed

section \<open>Counter invariants\<close>

lemma pipeline_counters: "counters w' = counters w \<Longrightarrow> pipeline k w' = pipeline k w"
  by (simp add: counters_def pipeline_def)

lemma transferred_counters: "counters w' = counters w \<Longrightarrow> transferred w' = transferred w"
  by (simp add: counters_def)

lemma fold_counters:
  "(\<And>x s. counters (f x s) = counters s) \<Longrightarrow> counters (fold f xs w) = counters w"
  by (induction xs arbitrary: w) simp_all

lemma blk_send_counters [simp]: "counters (blk_send c b w) = counters w"
  by (simp add: blk_send_def Let_def counters_def)

lemma bdrv_reset_dirty_counters [simp]: "counters (bdrv_reset_dirty c b sec nr w) = counters w"
  by (simp add: bdrv_reset_dirty_def counters_def)

lemma blk_mig_read_cb_pipeline:
  assumes "blk_mig_read_cb c b r w = Some w'"
  shows "length (blk_list w') = Suc (length (blk_list w)) \<and> read_done w' = read_done w + 1
     \<and> submitted w' = submitted w - 1 \<and> aio_pending w' = aio_pending w
     \<and> transferred w' = transferred w"
  using assms by (auto simp: blk_mig_read_cb_def Let_def split: if_splits)

lemma aio_complete_pipeline:
  assumes "aio_complete c i w = Some w'" and "i < length (aio_pending w)" and "pipeline k w"
  shows "pipeline k w' \<and> transferred w' = transferred w
     \<and> length (aio_pending w') = length (aio_pending w) - 1"
proof -
  obtain b r p where cb: "blk_mig_read_cb c b r
      (w\<lparr>aio_pending := take i (aio_pending w) @ drop (Suc i) (aio_pending w)\<rparr>) = Some w'"
    using assms(1) by (auto simp: aio_complete_def split: prod.splits)
  have l: "length (take i (aio_pending w) @ drop (Suc i) (aio_pending w)) = length (aio_pending w) - 1"
    using assms(2) by simp
  show ?thesis
    using blk_mig_read_cb_pipeline [OF cb] assms(2,3) l
    by (simp add: pipeline_def)
qed

lemma drain_pending_pipeline:
  "drain_pending c n w = Some w' \<Longrightarrow> n \<le> length (aio_pending w) \<Longrightarrow> pipeline k w
     \<Longrightarrow> pipeline k w' \<and> transferred w' = transferred w"
proof (induction n arbitrary: w)
  case 0
  then show ?case by simp
next
  case (Suc n)
  from Suc.prems(1) obtain w1 where s: "aio_complete c 0 w = Some w1"
      and d: "drain_pending c n w1 = Some w'"
    by (auto split: option.splits)
  have pos: "0 < length (aio_pending w)" using Suc.prems(2) by (cases "aio_pending w") simp_all
  have p: "pipeline k w1 \<and> transferred w1 = transferred w
     \<and> length (aio_pending w1) = length (aio_pending w) - 1"
    by (rule aio_complete_pipeline [OF s pos Suc.prems(3)])
  then have "n \<le> length (aio_pending w1)" using Suc.prems(2) by simp
  then show ?case using Suc.IH [OF d] p by simp
qed

lemma bdrv_drain_all_pipeline:
  assumes "bdrv_drain_all c w = Some w'" and "pipeline k w"
  shows "pipeline k w' \<and> transferred w' = transferred w"
  by (rule drain_pending_pipeline [OF assms(1) [unfolded bdrv_drain_all_def] le_refl assms(2)])

lemma flush_blks_pipeline:
  assumes "flush_blks c w = Some y"
  shows "pipeline k w \<longrightarrow> pipeline k (snd y) \<and> transferred w \<le> transferred (snd y)"
proof (rule flush_blks.raw_induct [where P = "\<lambda>c w y. pipeline k w \<longrightarrow>
    pipeline k (snd y) \<and> transferred w \<le> transferred (snd y)", OF _ assms], goal_cases)
  case (1 flush_blks c w ca)
  show ?case
  proof
    assume ok: "pipeline k w"
    show "pipeline k (snd ca) \<and> transferred w \<le> transferred (snd ca)"
    proof (cases "blk_list w")
      case Nil
      then show ?thesis using 1(2) ok by auto
    next
      case (Cons b rest)
      show ?thesis
      proof (cases "qemu_file_rate_limit (mig_file w) \<or> ret b < 0")
        case True
        then show ?thesis using 1(2) ok Cons by (auto split: if_splits)
      next
        case False
        let ?w4 = "(blk_send c b w)\<lparr>blk_list := rest, read_done := read_done (blk_send c b w) - 1,
              transferred := transferred (blk_send c b w) + 1\<rparr>"
        have cs: "counters (blk_send c b w) = counters w" by simp
        have rec: "flush_blks c ?w4 = Some ca"
          using 1(2) False Cons by (simp add: Let_def split: if_splits)
        have ok4: "pipeline k ?w4"
          using ok Cons cs by (simp add: pipeline_def counters_def)
        have "transferred w \<le> transferred ?w4" using cs by (simp add: counters_def)
        then show ?thesis using 1(1) [OF rec] ok4 by simp
      qed
    qed
  qed
qed

lemma mig_save_device_bulk_pipeline:
  "mig_save_device_bulk c i w = Some (r, w') \<Longrightarrow> pipeline k w
     \<Longrightarrow> pipeline k w' \<and> transferred w' = transferred w"
  by (auto simp add: mig_save_device_bulk_def Let_def bdrv_aio_readv_def bdrv_reset_dirty_def
      pipeline_def split: option.splits if_splits)

lemma save_bulked_scan_pipeline:
  "save_bulked_scan c is s w = Some (r, s', w') \<Longrightarrow> pipeline k w
     \<Longrightarrow> pipeline k w' \<and> transferred w' = transferred w"
proof (induction c "is" s w rule: save_bulked_scan.induct)
  case (1 c completed_sector_sum w)
  then show ?case by simp
next
  case (2 c i rest completed_sector_sum w)
  show ?case
  proof (cases "bmds_bulk_completed (bmds_list w ! i) = 0")
    case True
    then obtain r1 w1 where b: "mig_save_device_bulk c i w = Some (r1, w1)"
      and w': "w' = (if r1 = 1
                       then w1\<lparr>bmds_list := (bmds_list w1)
                                 [i := (bmds_list w1 ! i)\<lparr>bmds_bulk_completed := 1\<rparr>]\<rparr>
                       else w1)"
      using 2(2) by (auto simp: Let_def split: option.splits)
    show ?thesis
      using mig_save_device_bulk_pipeline [OF b 2(3)] w' by (simp add: pipeline_def)
  next
    case False
    then show ?thesis using 2 by simp
  qed
qed

lemma blk_mig_save_bulked_block_pipeline:
  "blk_mig_save_bulked_block c w = Some (r, w') \<Longrightarrow> pipeline k w
     \<Longrightarrow> pipeline k w' \<and> transferred w' = transferred w"
proof -
  assume a: "blk_mig_save_bulked_block c w = Some (r, w')" and ok: "pipeline k w"
  then obtain r0 s w1 where sc: "save_bulked_scan c [0..<length (bmds_list w)] 0 w = Some (r0, s, w1)"
    by (cases "save_bulked_scan c [0..<length (bmds_list w)] 0 w")
       (auto simp: blk_mig_save_bulked_block_def)
  have "r0 = r \<and> counters w' = counters w1"
    using a sc by (auto simp add: blk_mig_save_bulked_block_def Let_def counters_def split: if_splits)
  then have sc: "save_bulked_scan c [0..<length (bmds_list w)] 0 w = Some (r, s, w1)"
    and c: "counters w' = counters w1" using sc by simp_all
  show ?thesis
    using save_bulked_scan_pipeline [OF sc ok] pipeline_counters [OF c] transferred_counters [OF c]
    by simp
qed

lemma save_dirty_chunk_pipeline:
  assumes ok: "pipeline k w"
  shows "pipeline k (snd (save_dirty_chunk c i is_async sec w))
     \<and> transferred (snd (save_dirty_chunk c i is_async sec w)) = transferred w"
proof (cases "is_async \<noteq> 0")
  case True
  have "\<exists>req. counters (snd (save_dirty_chunk c i is_async sec w))
      = (blk_list w, aio_pending w @ [req], read_done w, submitted w + 1, transferred w)"
    using True
    by (simp add: save_dirty_chunk_def Let_def bdrv_aio_readv_def) (simp add: counters_def)
  then show ?thesis using ok by (auto simp add: counters_def pipeline_def)
next
  case False
  have "counters (snd (save_dirty_chunk c i is_async sec w)) = counters w"
    using False by (simp add: save_dirty_chunk_def Let_def split: prod.splits)
  then show ?thesis using ok pipeline_counters transferred_counters by blast
qed

lemma dirty_scan_pipeline:
  assumes "dirty_scan c i is_async sec w = Some y"
  shows "pipeline k w \<longrightarrow> pipeline k (snd y) \<and> transferred (snd y) = transferred w"
proof (rule dirty_scan.raw_induct [where P = "\<lambda>c i is_async sec w y. pipeline k w \<longrightarrow>
    pipeline k (snd y) \<and> transferred (snd y) = transferred w", OF _ assms], goal_cases)
  case (1 dirty_scan c i is_async sec w ca)
  show ?case
  proof
    assume ok: "pipeline k w"
    show "pipeline k (snd ca) \<and> transferred (snd ca) = transferred w"
    proof (cases "sec < total_sectors (bmds_list w ! i)")
      case False
      then show ?thesis using 1(2) ok by auto
    next
      case True
      then obtain w1 where d: "(if bmds_aio_inflight c w (bmds_list w ! i) sec \<noteq> 0
            then bdrv_drain_all c w else Some w) = Some w1"
        using 1(2) by (auto split: option.splits)
      have ok1: "pipeline k w1 \<and> transferred w1 = transferred w"
        using d ok bdrv_drain_all_pipeline [of c w w1] by (auto split: if_splits)
      show ?thesis
      proof (cases "bdrv_get_dirty c w1 (bs (bmds_list w1 ! i)) sec \<noteq> 0")
        case dirty: True
        then have "ca = save_dirty_chunk c i is_async sec w1"
          using 1(2) True d by (auto split: option.splits)
        then show ?thesis using save_dirty_chunk_pipeline [of k w1 c i is_async sec] ok1 by simp
      next
        case clean: False
        let ?w2 = "w1\<lparr>bmds_list := (bmds_list w1)
                           [i := (bmds_list w1 ! i)
                              \<lparr>cur_dirty := sec + BDRV_SECTORS_PER_DIRTY_CHUNK c\<rparr>]\<rparr>"
        have rec: "dirty_scan c i is_async (sec + BDRV_SECTORS_PER_DIRTY_CHUNK c) ?w2 = Some ca"
          using 1(2) True d clean by (auto split: option.splits)
        have "pipeline k ?w2 \<and> transferred ?w2 = transferred w"
          using ok1 by (simp add: pipeline_def)
        then show ?thesis using 1(1) [OF rec] by simp
      qed
    qed
  qed
qed

lemma save_dirty_scan_pipeline:
  "save_dirty_scan c is_async is r w = Some (r', w') \<Longrightarrow> pipeline k w
     \<Longrightarrow> pipeline k w' \<and> transferred w' = transferred w"
proof (induction "is" arbitrary: r w)
  case Nil
  then show ?case by simp
next
  case (Cons i rest)
  from Cons.prems(1) obtain r1 w1 where
    d: "dirty_scan c i is_async (cur_dirty (bmds_list w ! i)) w = Some (r1, w1)"
    by (cases "dirty_scan c i is_async (cur_dirty (bmds_list w ! i)) w")
       (auto simp: mig_save_device_dirty_def)
  have k: "(if r1 \<le> 0 then Some (r1, w1) else save_dirty_scan c is_async rest r1 w1) = Some (r', w')"
    using Cons.prems(1) d by (simp add: mig_save_device_dirty_def)
  have ok1: "pipeline k w1 \<and> transferred w1 = transferred w"
    using dirty_scan_pipeline [OF d] Cons.prems(2) by simp
  show ?case
  proof (cases "r1 \<le> 0")
    case True
    then show ?thesis using k ok1 by simp
  next
    case False
    then have "save_dirty_scan c is_async rest r1 w1 = Some (r', w')" using k by simp
    then show ?thesis using Cons.IH ok1 by simp
  qed
qed

lemma blk_mig_save_dirty_block_pipeline:
  "blk_mig_save_dirty_block c is_async w = Some (r, w') \<Longrightarrow> pipeline k w
     \<Longrightarrow> pipeline k w' \<and> transferred w' = transferred w"
  unfolding blk_mig_save_dirty_block_def by (rule save_dirty_scan_pipeline)

lemma init_blk_migration_it_counters [simp]:
  "counters (init_blk_migration_it c b w) = counters w"
  by (simp add: init_blk_migration_it_def Let_def counters_def drive_get_ref_def
      bdrv_set_in_use_def)

lemma set_dirty_tracking_counters [simp]: "counters (set_dirty_tracking enable w) = counters w"
  unfolding set_dirty_tracking_def
  by (rule fold_counters) (simp add: bdrv_set_dirty_tracking_def counters_def)

lemma init_blk_migration_counters:
  "counters (init_blk_migration c w) = (blk_list w, aio_pending w, 0, 0, 0)"
proof -
  have "counters (init_blk_migration c w) =
      counters (w\<lparr>submitted := 0, read_done := 0, transferred := 0, total_sector_sum := 0,
          prev_progress := - 1, bulk_completed := 0, total_time := ld_of_int 0, reads := 0,
          total_blocks := 0, zero_blocks := 0, bulk_blocks := 0\<rparr>)"
    unfolding init_blk_migration_def bdrv_iterate_def by (rule fold_counters) simp
  then show ?thesis by (simp add: counters_def)
qed

lemma block_save_setup_pipeline:
  assumes "blk_list w0 = []" and "aio_pending w0 = []" and "block_save_setup c w0 = Some (r, w)"
  shows "r = 0 \<and> pipeline 0 w \<and> transferred w = 0"
proof -
  let ?w2 = "set_dirty_tracking 1 (init_blk_migration c w0)"
  have c2: "counters ?w2 = ([], [], 0, 0, 0)"
    using assms(1,2) by (simp add: init_blk_migration_counters)
  then have e: "blk_list ?w2 = []" by (simp add: counters_def)
  have f: "flush_blks c ?w2 = Some (0, ?w2)" by (subst flush_blks.simps) (simp add: e)
  have "r = 0 \<and> counters w = counters ?w2"
    using assms(3) f
    by (auto simp add: block_save_setup_def Let_def blk_mig_reset_dirty_cursor_def counters_def)
  then show ?thesis using c2 by (simp add: counters_def pipeline_def)
qed

lemma blk_mig_cleanup_pipeline:
  assumes "blk_mig_cleanup c w = Some w'" and "pipeline k w"
  shows "pipeline (read_done w') w' \<and> blk_list w' = [] \<and> k \<le> read_done w'
     \<and> transferred w' = transferred w"
proof -
  from assms(1) obtain w1 where d: "bdrv_drain_all c w = Some w1"
    and w': "w' = (fold (\<lambda>d v. drive_put_ref (bs d) (bdrv_set_in_use (bs d) 0 v))
                    (bmds_list (set_dirty_tracking 0 w1)) (set_dirty_tracking 0 w1))
                  \<lparr>bmds_list := [], blk_list := []\<rparr>"
    by (auto simp add: blk_mig_cleanup_def Let_def split: option.splits)
  have p1: "pipeline k w1 \<and> transferred w1 = transferred w"
    by (rule bdrv_drain_all_pipeline [OF d assms(2)])
  have "counters (fold (\<lambda>d v. drive_put_ref (bs d) (bdrv_set_in_use (bs d) 0 v))
                    (bmds_list (set_dirty_tracking 0 w1)) (set_dirty_tracking 0 w1))
      = counters (set_dirty_tracking 0 w1)"
    by (rule fold_counters) (simp add: drive_put_ref_def bdrv_set_in_use_def counters_def)
  then have c: "counters w' = ([], aio_pending w1, read_done w1, submitted w1, transferred w1)"
    by (simp add: w') (simp add: counters_def)
  have "0 \<le> int (length (blk_list w1))" by simp
  then have "k \<le> read_done w1" using p1 by (simp add: pipeline_def)
  then show ?thesis using c p1 by (simp add: counters_def pipeline_def)
qed

text \<open>
  In every session the counters keep their meaning up to the first run of
  \<^verbatim>\<open>blk_mig_cleanup\<close>: the length of the pending queue equals \<open>read_done\<close>. From then on
  \<open>read_done\<close> may exceed it, since the cleanup frees the queue and leaves the counter.
  Throughout, \<open>submitted\<close> is the number of outstanding reads and \<open>transferred\<close> does
  not decrease.
\<close>

lemma session_pipeline:
  "session c cleaned tr \<Longrightarrow>
     (\<exists>k. 0 \<le> k \<and> (\<not> cleaned \<longrightarrow> k = 0) \<and> pipeline k (hd tr))
     \<and> tr \<noteq> []
     \<and> list_all (\<lambda>w. int (length (blk_list w)) \<le> read_done w
                   \<and> 0 \<le> submitted w \<and> submitted w = int (length (aio_pending w))) tr
     \<and> (\<not> cleaned \<longrightarrow> list_all (\<lambda>w. int (length (blk_list w)) = read_done w) tr)
     \<and> sorted (map transferred (rev tr))"
proof -
  let ?weak = "\<lambda>w. int (length (blk_list w)) \<le> read_done w
                   \<and> 0 \<le> submitted w \<and> submitted w = int (length (aio_pending w))"
  let ?eq = "\<lambda>w. int (length (blk_list w)) = read_done w"
  let ?P = "\<lambda>cleaned tr. (\<exists>k. 0 \<le> k \<and> (\<not> cleaned \<longrightarrow> k = 0) \<and> pipeline k (hd tr))
     \<and> tr \<noteq> [] \<and> list_all ?weak tr \<and> (\<not> cleaned \<longrightarrow> list_all ?eq tr)
     \<and> sorted (map transferred (rev tr))"
  have ext: "?P cl' (w' # w # tr)"
    if "?P cl (w # tr)"
      and "\<And>k. 0 \<le> k \<Longrightarrow> pipeline k w
              \<Longrightarrow> \<exists>k'. k \<le> k' \<and> (\<not> cl' \<longrightarrow> k' = k) \<and> pipeline k' w'"
      and "transferred w \<le> transferred w'" and "cl \<longrightarrow> cl'" for cl cl' w w' tr
  proof -
    from that(1) obtain k where k: "0 \<le> k" "\<not> cl \<longrightarrow> k = 0" "pipeline k w" by auto
    from that(2) [OF k(1,3)] obtain k' where
      k': "k \<le> k'" "\<not> cl' \<longrightarrow> k' = k" "pipeline k' w'" by auto
    have weak: "?weak w'" using k' k(1) by (auto simp add: pipeline_def)
    have eq: "\<not> cl' \<longrightarrow> ?eq w'"
      using k' k that(4) by (auto simp add: pipeline_def)
    have "sorted (map transferred (rev (w # tr)) @ [transferred w'])"
      using that(1,3) by (auto simp add: sorted_append)
    moreover have "\<exists>j. 0 \<le> j \<and> (\<not> cl' \<longrightarrow> j = 0) \<and> pipeline j w'"
      using k' k that(4) by (intro exI [of _ k']) auto
    ultimately show ?thesis using that(1,4) weak eq by auto
  qed
  assume "session c cleaned tr"
  then have "?P cleaned tr"
  proof (induction rule: session.induct)
    case (started w0 w)
    have "pipeline 0 w \<and> transferred w = 0"
      using block_save_setup_pipeline [OF started] by simp
    then show ?case by (auto simp add: pipeline_def)
  next
    case (completion cleaned w tr i w')
    show ?case
    proof (rule ext [OF completion.IH])
      fix k assume "0 \<le> k" and "pipeline k w"
      then show "\<exists>k'. k \<le> k' \<and> (\<not> cleaned \<longrightarrow> k' = k) \<and> pipeline k' w'"
        using aio_complete_pipeline [OF completion(3,2)] by auto
    next
      have "\<exists>k. pipeline k w" using completion.IH by auto
      then show "transferred w \<le> transferred w'"
        using aio_complete_pipeline [OF completion(3,2)] by auto
    qed simp
  next
    case (flush cleaned w tr r w')
    show ?case
    proof (rule ext [OF flush.IH])
      fix k assume "0 \<le> k" and "pipeline k w"
      then show "\<exists>k'. k \<le> k' \<and> (\<not> cleaned \<longrightarrow> k' = k) \<and> pipeline k' w'"
        using flush_blks_pipeline [OF flush(2), of k] by auto
    next
      have "\<exists>k. pipeline k w" using flush.IH by auto
      then show "transferred w \<le> transferred w'"
        using flush_blks_pipeline [OF flush(2)] by auto
    qed simp
  next
    case (bulk_step cleaned w tr r w')
    show ?case
    proof (rule ext [OF bulk_step.IH])
      fix k assume "0 \<le> k" and "pipeline k w"
      then show "\<exists>k'. k \<le> k' \<and> (\<not> cleaned \<longrightarrow> k' = k) \<and> pipeline k' w'"
        using blk_mig_save_bulked_block_pipeline [OF bulk_step(2)] by auto
    next
      have "\<exists>k. pipeline k w" using bulk_step.IH by auto
      then show "transferred w \<le> transferred w'"
        using blk_mig_save_bulked_block_pipeline [OF bulk_step(2)] by auto
    qed simp
  next
    case (dirty_step cleaned w tr is_async r w')
    show ?case
    proof (rule ext [OF dirty_step.IH])
      fix k assume "0 \<le> k" and "pipeline k w"
      then show "\<exists>k'. k \<le> k' \<and> (\<not> cleaned \<longrightarrow> k' = k) \<and> pipeline k' w'"
        using blk_mig_save_dirty_block_pipeline [OF dirty_step(2)] by auto
    next
      have "\<exists>k. pipeline k w" using dirty_step.IH by auto
      then show "transferred w \<le> transferred w'"
        using blk_mig_save_dirty_block_pipeline [OF dirty_step(2)] by auto
    qed simp
  next
    case (cursor_reset cleaned w tr)
    show ?case
      by (rule ext [OF cursor_reset.IH])
         (auto simp add: pipeline_def blk_mig_reset_dirty_cursor_def)
  next
    case (bulk_done cleaned w tr)
    show ?case
      by (rule ext [OF bulk_done.IH]) (auto simp add: pipeline_def)
  next
    case (marker cleaned w tr v)
    show ?case
      by (rule ext [OF marker.IH]) (auto simp add: pipeline_def)
  next
    case (cleanup cleaned w tr w')
    show ?case
    proof (rule ext [OF cleanup.IH])
      fix k assume "0 \<le> k" and "pipeline k w"
      then show "\<exists>k'. k \<le> k' \<and> (\<not> True \<longrightarrow> k' = k) \<and> pipeline k' w'"
        using blk_mig_cleanup_pipeline [OF cleanup(2), of k]
        by (intro exI [of _ "read_done w'"]) auto
    next
      have "\<exists>k. pipeline k w" using cleanup.IH by auto
      then show "transferred w \<le> transferred w'"
        using blk_mig_cleanup_pipeline [OF cleanup(2)] by auto
    qed simp
  next
    case (environment cleaned w tr x1 x2 x3)
    show ?case
      by (rule ext [OF environment.IH]) (auto simp add: pipeline_def)
  qed
  then show ?thesis .
qed

lemma iterate_after_setup_runs:
  "\<not> Option.is_none (block_save_setup small_consts session_idle)
   \<and> fst (the (block_save_setup small_consts session_idle)) = 0
   \<and> \<not> Option.is_none (block_save_iterate small_consts session_started)
   \<and> fst (the (block_save_iterate small_consts session_started)) = 1
   \<and> blk_list session_iterated = [] \<and> aio_pending session_iterated = []
   \<and> read_done session_iterated = 2 \<and> submitted session_iterated = 0
   \<and> transferred session_iterated = 0 \<and> reads session_iterated = 2
   \<and> bmds_list session_iterated = []"
  by code_simp

text \<open>
  Claim C8, on the code. On the small device, \<^verbatim>\<open>block_save_iterate\<close> called right after
  a successful setup submits the reads of both chunks, finds the bulk phase over and no
  chunk dirty, and leaves through \<^verbatim>\<open>blk_mig_cleanup\<close> with the value 1: the cleanup has
  the two reads completed (\<open>read_done\<close> is 2) and frees the queue without touching
  \<open>read_done\<close>. The flush that the next hook starts with returns 0 and changes nothing:
  at this observation point the pending queue is empty and \<open>read_done\<close> is 2.
\<close>

theorem counter_invariants_after_cleanup:
  "blk_list session_idle = [] \<and> aio_pending session_idle = []
   \<and> block_save_setup small_consts session_idle = Some (0, session_started)
   \<and> block_save_iterate small_consts session_started = Some (1, session_iterated)
   \<and> flush_blks small_consts session_iterated = Some (0, session_iterated)
   \<and> length (blk_list session_iterated) = 0 \<and> read_done session_iterated = 2
   \<and> submitted session_iterated = 0 \<and> length (aio_pending session_iterated) = 0
   \<and> transferred session_iterated = 0 \<and> reads session_iterated = 2"
proof -
  have some: "x = Some (fst (the x), snd (the x))" if "\<not> Option.is_none x"
    for x :: "(int \<times> world) option"
    using that by (cases x) simp_all
  have st: "block_save_setup small_consts session_idle = Some (0, session_started)"
    using iterate_after_setup_runs some [of "block_save_setup small_consts session_idle"]
    by (simp add: session_started_def)
  have it: "block_save_iterate small_consts session_started = Some (1, session_iterated)"
    using iterate_after_setup_runs some [of "block_save_iterate small_consts session_started"]
    by (simp add: session_iterated_def)
  have e: "blk_list session_iterated = []" using iterate_after_setup_runs by simp
  have fl: "flush_blks small_consts session_iterated = Some (0, session_iterated)"
    by (subst flush_blks.simps) (simp add: e)
  have idle: "blk_list session_idle = [] \<and> aio_pending session_idle = []"
    by (simp add: session_idle_def blk_mig_init_def sample_world_def)
  show ?thesis using idle st it fl iterate_after_setup_runs by simp
qed

section \<open>The receiver\<close>

text \<open>
  The big-endian header read back, the fields of a header word, and the reads of the
  transport on an input that holds what is asked for.
\<close>

lemma be64_step:
  "push_bit 8 (drop_bit (k + 8) v) OR ucast (ucast (drop_bit k v) :: 8 word) = (drop_bit k v :: 64 word)"
proof (rule bit_word_eqI)
  fix n
  assume n: "n < LENGTH(64)"
  show "bit (push_bit 8 (drop_bit (k + 8) v) OR ucast (ucast (drop_bit k v) :: 8 word)) n
      = bit (drop_bit k v) n"
  proof (cases "n < 8")
    case True
    then show ?thesis using n by (auto simp add: bit_simps)
  next
    case False
    then have "k + 8 + (n - 8) = k + n" by simp
    then show ?thesis using False n by (auto simp add: bit_simps ac_simps)
  qed
qed

lemma be64_first: "(ucast (ucast (drop_bit 56 v :: 64 word) :: 8 word) :: 64 word) = drop_bit 56 v"
  by (rule bit_word_eqI) (auto simp: bit_simps dest: bit_imp_le_length)

lemma of_be64_be64: "of_be64 (be64 v) = v"
proof -
  have "of_be64 (be64 v) =
    push_bit 8 (push_bit 8 (push_bit 8 (push_bit 8 (push_bit 8 (push_bit 8 (push_bit 8
      (ucast (ucast (drop_bit 56 v) :: 8 word))
      OR ucast (ucast (drop_bit 48 v) :: 8 word))
      OR ucast (ucast (drop_bit 40 v) :: 8 word))
      OR ucast (ucast (drop_bit 32 v) :: 8 word))
      OR ucast (ucast (drop_bit 24 v) :: 8 word))
      OR ucast (ucast (drop_bit 16 v) :: 8 word))
      OR ucast (ucast (drop_bit 8 v) :: 8 word))
      OR ucast (ucast (drop_bit 0 v) :: 8 word)"
    by (simp only: be64_def of_be64_def list.map foldl.simps push_bit_of_0 bit.disj_zero_right
        or.left_neutral mult_numeral_left_semiring_numeral mult_zero_right
        mult.right_neutral arith_simps)
  also have "\<dots> = drop_bit 0 v"
    using be64_step [of 0 v] be64_step [of 8 v] be64_step [of 16 v] be64_step [of 24 v]
      be64_step [of 32 v] be64_step [of 40 v] be64_step [of 48 v] be64_first [of v]
    by (simp only: arith_simps)
  finally show ?thesis by simp
qed

lemma header_fields:
  assumes "0 \<le> s" and "0 \<le> f" and "f < 2 ^ n"
  shows "drop_bit n (push_bit n s OR f) = (s::int)
    \<and> (push_bit n s OR f) AND NOT (NOT (push_bit n 1 - 1)) = f"
proof -
  have d: "drop_bit n f = 0" using assms by (simp add: drop_bit_eq_div)
  have one: "drop_bit n (push_bit n s OR f) = s" by (simp add: d drop_bit_push_bit)
  have t: "take_bit n f = f" using assms by (simp add: take_bit_int_eq_self)
  have "(push_bit n s OR f) AND NOT (NOT (push_bit n 1 - 1)) = take_bit n (push_bit n s OR f)"
    by (simp add: take_bit_eq_mask mask_eq_exp_minus_1)
  also have "\<dots> = f" by (simp add: t take_bit_push_bit)
  finally show ?thesis using one by simp
qed

lemma header_bound:
  assumes "0 \<le> s" and "0 \<le> f" and "f < 2 ^ 63" and "push_bit n s < (2 ^ 63 :: int)"
  shows "0 \<le> push_bit n s OR f \<and> push_bit n s OR f < (2 ^ 63 :: int)"
  using assms OR_upper [of "push_bit n s" 63 f] by simp

lemma sint_header:
  assumes "0 \<le> v" and "v < (2 ^ 63 :: int)"
  shows "sint (word_of_int v :: 64 word) = v"
  using assms by (simp add: signed_of_int signed_take_bit_int_eq_self)


lemma qemu_get_buffer_enough:
  "rd f = p @ rest \<Longrightarrow> nat n = length p \<Longrightarrow> qemu_get_buffer f n = (p, f\<lparr>rd := rest\<rparr>)"
  by (simp add: qemu_get_buffer_def)

lemma qemu_get_be64_frame:
  "rd f = be64 v @ rest \<Longrightarrow> qemu_get_be64 f = (sint v, f\<lparr>rd := rest\<rparr>)"
  by (simp add: qemu_get_be64_def qemu_get_buffer_enough [of f "be64 v" rest 8] length_be64
      of_be64_be64)

lemma qemu_get_byte_frame:
  "rd f = x # rest \<Longrightarrow> qemu_get_byte f = (uint x, f\<lparr>rd := rest\<rparr>)"
  by (simp add: qemu_get_byte_def qemu_get_buffer_enough [of f "[x]" rest 1])

lemma bdrv_find_Some:
  "bdrv_find w name = Some k \<Longrightarrow> k < length (bdrv_states w) \<and> device_name (bdrv_states w ! k) = name"
  by (auto simp add: bdrv_find_def find_Some_iff)

lemma blk_send_wire:
  assumes "\<not> (is_zero_blk c (buf b) \<noteq> 0 \<and> bmds_sparse_enable (bmds_list w ! bmds b) \<noteq> 0
            \<and> bmds_bulk_completed (bmds_list w ! bmds b) = 0)"
  shows "wire (mig_file (blk_send c b w)) =
           wire (mig_file w)
           @ be64 (word_of_int (push_bit (BDRV_SECTOR_BITS c) (sector b)
                     OR BLK_MIG_FLAG_DEVICE_BLOCK
                     OR (is_zero_blk c (buf b) * BLK_MIG_FLAG_ZERO_BLOCK)))
           @ [word_of_int (int (length (device_name (bdrv_states w ! bs (bmds_list w ! bmds b)))))]
           @ device_name (bdrv_states w ! bs (bmds_list w ! bmds b))
           @ (if is_zero_blk c (buf b) = 0 then take (nat (BLOCK_SIZE c)) (buf b) else [])"
  using assms
  by (auto simp add: blk_send_def Let_def qemu_put_be64_def qemu_put_byte_def
      qemu_put_buffer_def qemu_fflush_def length_be64)

lemma blk_send_elided:
  assumes "is_zero_blk c (buf b) \<noteq> 0 \<and> bmds_sparse_enable (bmds_list w ! bmds b) \<noteq> 0
            \<and> bmds_bulk_completed (bmds_list w ! bmds b) = 0"
  shows "wire (mig_file (blk_send c b w)) = wire (mig_file w)"
  using assms by (simp add: blk_send_def Let_def)

text \<open>
  The locals of the loop of \<^verbatim>\<open>block_load\<close>, wherever the loop is at its head: a scratch
  buffer marked as zeroed is zero, and the cached sector count is that of the cached
  device. An iteration changes no device length, and from every such point the loop
  computes what \<^verbatim>\<open>block_load\<close> returns.
\<close>

lemma bs_length_update_written:
  "bs_length (xs[j := (xs ! j)\<lparr>written := W\<rparr>] ! k) = bs_length (xs ! k)"
proof (cases "j < length xs")
  case True
  then show ?thesis by (cases "k = j") simp_all
next
  case False
  then have "xs[j := (xs ! j)\<lparr>written := W\<rparr>] = xs" by (simp add: list_update_beyond)
  then show ?thesis by simp
qed

lemma block_load_device_block_lengths:
  "bdrv_getlength (snd (block_load_device_block c flags addr l f1 w)) k = bdrv_getlength w k"
  by (simp add: block_load_device_block_def Let_def bdrv_write_def bdrv_getlength_def
      bs_length_update_written split: prod.splits option.splits)

lemma block_load_frame_lengths:
  "bdrv_getlength (snd (block_load_frame c l w)) k = bdrv_getlength w k"
proof -
  have "bdrv_getlength (w\<lparr>mig_file := f\<rparr>) k = bdrv_getlength w k" for f
    by (simp add: bdrv_getlength_def)
  then show ?thesis
    by (simp add: block_load_frame_def Let_def block_load_device_block_lengths split: prod.splits)
qed

lemma block_load_buffer_zeroed:
  assumes "block_load_buffer c flags l f = (l', f')"
    and "buf_is_zeroed l \<noteq> 0 \<longrightarrow> ld_buf l = replicate (nat (BLOCK_SIZE c)) 0"
  shows "(buf_is_zeroed l' \<noteq> 0 \<longrightarrow> ld_buf l' = replicate (nat (BLOCK_SIZE c)) 0)
     \<and> bs_prev l' = bs_prev l \<and> ld_total_sectors l' = ld_total_sectors l"
  using assms by (auto simp add: block_load_buffer_def split: if_splits prod.splits)

lemma block_load_device_block_locals:
  assumes r: "block_load_device_block c flags addr l f1 w = (Inr (fl, l'), w')"
    and z: "buf_is_zeroed l \<noteq> 0 \<longrightarrow> ld_buf l = replicate (nat (BLOCK_SIZE c)) 0"
    and t: "\<forall>k. bs_prev l = Some k \<longrightarrow>
        ld_total_sectors l = drop_bit (BDRV_SECTOR_BITS c) (bdrv_getlength w k)"
  shows "(buf_is_zeroed l' \<noteq> 0 \<longrightarrow> ld_buf l' = replicate (nat (BLOCK_SIZE c)) 0)
     \<and> (\<forall>k. bs_prev l' = Some k \<longrightarrow>
          ld_total_sectors l' = drop_bit (BDRV_SECTOR_BITS c) (bdrv_getlength w k))"
proof -
  obtain len f2 where g1: "qemu_get_byte f1 = (len, f2)" by fastforce
  obtain p f3 where g2: "qemu_get_buffer f2 len = (p, f3)" by fastforce
  from r g1 g2 obtain b where b: "bdrv_find w (takeWhile (\<lambda>ch. ch \<noteq> 0) p) = Some b"
    by (cases "bdrv_find w (takeWhile (\<lambda>ch. ch \<noteq> 0) p)")
       (auto simp add: block_load_device_block_def)
  define l1 where "l1 = (if Some b \<noteq> bs_prev l
                                then l\<lparr>bs_prev := Some b,
                                       ld_total_sectors :=
                                         drop_bit (BDRV_SECTOR_BITS c) (bdrv_getlength w b)\<rparr>
                                else l)"
  have z1: "buf_is_zeroed l1 \<noteq> 0 \<longrightarrow> ld_buf l1 = replicate (nat (BLOCK_SIZE c)) 0"
    using z by (simp add: l1_def)
  have t1: "\<forall>k. bs_prev l1 = Some k \<longrightarrow>
        ld_total_sectors l1 = drop_bit (BDRV_SECTOR_BITS c) (bdrv_getlength w k)"
    using t by (simp add: l1_def)
  obtain l2 f5 where bb: "block_load_buffer c flags l1 f3 = (l2, f5)" by fastforce
  have "l' = l2"
    using r g1 g2 b bb
    by (auto simp add: block_load_device_block_def Let_def l1_def split: if_splits prod.splits)
  then show ?thesis using block_load_buffer_zeroed [OF bb z1] t1 by simp
qed

lemma block_load_frame_locals:
  assumes r: "block_load_frame c l w = (Inr (fl, l'), w')"
    and z: "buf_is_zeroed l \<noteq> 0 \<longrightarrow> ld_buf l = replicate (nat (BLOCK_SIZE c)) 0"
    and t: "\<forall>k. bs_prev l = Some k \<longrightarrow>
        ld_total_sectors l = drop_bit (BDRV_SECTOR_BITS c) (bdrv_getlength w k)"
  shows "(buf_is_zeroed l' \<noteq> 0 \<longrightarrow> ld_buf l' = replicate (nat (BLOCK_SIZE c)) 0)
     \<and> (\<forall>k. bs_prev l' = Some k \<longrightarrow>
          ld_total_sectors l' = drop_bit (BDRV_SECTOR_BITS c) (bdrv_getlength w' k))"
proof -
  have w': "w' = snd (block_load_frame c l w)" using r by simp
  have len: "bdrv_getlength w' k = bdrv_getlength w k" for k
    unfolding w' by (rule block_load_frame_lengths)
  obtain addr0 f1 where g: "qemu_get_be64 (mig_file w) = (addr0, f1)" by fastforce
  show ?thesis
  proof (cases "(addr0 AND NOT (BDRV_SECTOR_MASK c)) AND BLK_MIG_FLAG_DEVICE_BLOCK \<noteq> 0")
    case True
    then have "block_load_device_block c (addr0 AND NOT (BDRV_SECTOR_MASK c))
        (drop_bit (BDRV_SECTOR_BITS c) addr0) l f1 w = (Inr (fl, l'), w')"
      using r g by (simp add: block_load_frame_def Let_def)
    from block_load_device_block_locals [OF this z t] show ?thesis by (simp add: len)
  next
    case False
    then have "l' = l" using r g
      by (auto simp add: block_load_frame_def Let_def split: if_splits)
    then show ?thesis using z t by (simp add: len)
  qed
qed

lemma block_load_at_locals:
  "block_load_at c w0 l w \<Longrightarrow>
     (buf_is_zeroed l \<noteq> 0 \<longrightarrow> ld_buf l = replicate (nat (BLOCK_SIZE c)) 0)
     \<and> (\<forall>k. bs_prev l = Some k \<longrightarrow>
          ld_total_sectors l = drop_bit (BDRV_SECTOR_BITS c) (bdrv_getlength w k))"
proof (induction rule: block_load_at.induct)
  case entry
  then show ?case by simp
next
  case (next_frame l w flags l' w')
  show ?case by (rule block_load_frame_locals [OF next_frame(2)]) (use next_frame.IH in auto)
qed

lemma block_load_at_loop:
  "block_load_at c w0 l w \<Longrightarrow> block_load_loop c l w = block_load c w0"
proof (induction rule: block_load_at.induct)
  case entry
  then show ?case by (simp add: block_load_def)
next
  case (next_frame l w flags l' w')
  have "block_load_loop c l w = block_load_loop c l' w'"
    by (subst block_load_loop.simps) (simp add: next_frame(2,3))
  then show ?case using next_frame.IH by simp
qed


text \<open>
  Claim C1. Let \<^verbatim>\<open>blk_send\<close> emit a frame for the block \<open>b\<close> (buffer \<open>buf b\<close>, at
  \<open>sector b\<close> of a device named \<open>name\<close>), and let the receiver hold a device of that
  name with the same number of sectors. Wherever the loop of \<^verbatim>\<open>block_load\<close> is at its
  head with an input that starts with the frame, the header read back carries
  \<open>sector b\<close> and the flags \<open>DEVICE_BLOCK\<close> and, exactly when the buffer is all zero,
  \<open>ZERO_BLOCK\<close>; the iteration consumes exactly the frame and changes the devices by
  exactly one write: to that device, at \<open>sector b\<close>, of
  \<open>min(BDRV_SECTORS_PER_DIRTY_CHUNK, total_sectors - sector b)\<close> sectors, with the bytes
  of the corresponding prefix of the buffer; these are all zero when the buffer was. It
  returns the code of a failed write or of a failed transport, and otherwise leaves the
  loop at its head again, with the device and its sector count cached, the buffer in
  the scratch buffer, and the scratch buffer marked as zeroed exactly when the frame
  carried \<open>ZERO_BLOCK\<close>.
\<close>

theorem frame_round_trip:
  assumes bits: "4 \<le> BDRV_SECTOR_BITS c"
    and buf_len: "int (length (buf b)) = BLOCK_SIZE c"
    and name_def: "name = device_name (bdrv_states ws ! bs (bmds_list ws ! bmds b))"
    and name_len: "length name < 256"
    and name_nul: "0 \<notin> set name"
    and frame: "wire (mig_file (blk_send c b ws)) = wire (mig_file ws) @ fr"
    and emitted: "fr \<noteq> []"
    and found: "bdrv_find wr name = Some k"
    and same_total: "total_sectors (bmds_list ws ! bmds b)
        = drop_bit (BDRV_SECTOR_BITS c) (bdrv_getlength wr k)"
    and len_bound: "bdrv_getlength wr k < 2 ^ 63"
    and sec_lo: "0 \<le> sector b"
    and sec_hi: "sector b < total_sectors (bmds_list ws ! bmds b)"
    and reach: "block_load_at c w0 l wr"
    and input: "rd (mig_file wr) = fr @ rest"
    and n_def: "n = min (BDRV_SECTORS_PER_DIRTY_CHUNK c)
        (total_sectors (bmds_list ws ! bmds b) - sector b)"
  shows "let flags = BLK_MIG_FLAG_DEVICE_BLOCK
                OR (if list_all (\<lambda>x. x = 0) (buf b) then BLK_MIG_FLAG_ZERO_BLOCK else 0);
             l' = \<lparr>bs_prev = Some k,
                   ld_total_sectors = total_sectors (bmds_list ws ! bmds b),
                   ld_buf = buf b,
                   buf_is_zeroed = (if list_all (\<lambda>x. x = 0) (buf b) then 1 else 0)\<rparr>;
             wr' = wr\<lparr>bdrv_states := (bdrv_states wr)[k := (bdrv_states wr ! k)
                        \<lparr>written := written (bdrv_states wr ! k)
                           @ [(sector b, n, take (nat (n * BDRV_SECTOR_SIZE c)) (buf b))]\<rparr>],
                      mig_file := (mig_file wr)\<lparr>rd := rest\<rparr>\<rparr>
         in block_load_frame c l wr =
              (if write_ret (bdrv_states wr ! k) < 0 then Inl (write_ret (bdrv_states wr ! k))
               else if last_error (mig_file wr) \<noteq> 0 then Inl (last_error (mig_file wr))
               else Inr (flags, l'), wr')
            \<and> drop_bit (BDRV_SECTOR_BITS c) (sint (of_be64 (take 8 fr))) = sector b
            \<and> sint (of_be64 (take 8 fr)) AND NOT (BDRV_SECTOR_MASK c) = flags
            \<and> (list_all (\<lambda>x. x = 0) (buf b)
                 \<longrightarrow> list_all (\<lambda>x. x = 0) (take (nat (n * BDRV_SECTOR_SIZE c)) (buf b)))
            \<and> (0 \<le> write_ret (bdrv_states wr ! k) \<and> last_error (mig_file wr) = 0
                 \<longrightarrow> block_load_at c w0 l' wr')"
proof -
  define T where "T = total_sectors (bmds_list ws ! bmds b)"
  define z where "z = is_zero_blk c (buf b)"
  define fl :: int where "fl = (if list_all (\<lambda>x. x = 0) (buf b) then 9 else 1)"
  define hdr where "hdr = push_bit (BDRV_SECTOR_BITS c) (sector b) OR fl"
  define payload where "payload = (if z = 0 then take (nat (BLOCK_SIZE c)) (buf b) else [])"
  define l' where "l' = \<lparr>bs_prev = Some k, ld_total_sectors = T, ld_buf = buf b,
      buf_is_zeroed = (if list_all (\<lambda>x. x = 0) (buf b) then 1 else 0)\<rparr>"
  define wr' where "wr' = wr\<lparr>bdrv_states := (bdrv_states wr)[k := (bdrv_states wr ! k)
                        \<lparr>written := written (bdrv_states wr ! k)
                           @ [(sector b, n, take (nat (n * BDRV_SECTOR_SIZE c)) (buf b))]\<rparr>],
                      mig_file := (mig_file wr)\<lparr>rd := rest\<rparr>\<rparr>"
  have fl_flags: "BLK_MIG_FLAG_DEVICE_BLOCK
                OR (if list_all (\<lambda>x. x = 0) (buf b) then BLK_MIG_FLAG_ZERO_BLOCK else 0) = fl"
    by (simp add: fl_def BLK_MIG_FLAG_DEVICE_BLOCK_def BLK_MIG_FLAG_ZERO_BLOCK_def)
  have zb: "z = (if list_all (\<lambda>x. x = 0) (buf b) then 1 else 0)"
    unfolding z_def using bits buf_len by (rule is_zero_blk_iff)
  have not_elided: "\<not> (is_zero_blk c (buf b) \<noteq> 0 \<and> bmds_sparse_enable (bmds_list ws ! bmds b) \<noteq> 0
            \<and> bmds_bulk_completed (bmds_list ws ! bmds b) = 0)"
    using frame emitted blk_send_elided [of c b ws] by auto
  have hdr_eq: "push_bit (BDRV_SECTOR_BITS c) (sector b) OR BLK_MIG_FLAG_DEVICE_BLOCK
                OR (is_zero_blk c (buf b) * BLK_MIG_FLAG_ZERO_BLOCK) = hdr"
    using zb by (simp add: hdr_def fl_def z_def BLK_MIG_FLAG_DEVICE_BLOCK_def
        BLK_MIG_FLAG_ZERO_BLOCK_def or.assoc)
  have fr: "fr = be64 (word_of_int hdr) @ [word_of_int (int (length name))] @ name @ payload"
    using blk_send_wire [OF not_elided] frame
    by (simp add: name_def hdr_eq payload_def z_def)
  have k: "k < length (bdrv_states wr)" using bdrv_find_Some [OF found] by simp
  have pow: "(16::int) \<le> 2 ^ BDRV_SECTOR_BITS c"
    using power_increasing [OF bits, of "2::int"] by simp
  have fl_range: "0 \<le> fl \<and> fl < 2 ^ BDRV_SECTOR_BITS c \<and> fl < 2 ^ 63"
    using pow by (simp add: fl_def)
  have fields: "drop_bit (BDRV_SECTOR_BITS c) hdr = sector b
      \<and> hdr AND NOT (BDRV_SECTOR_MASK c) = fl"
    unfolding hdr_def BDRV_SECTOR_MASK_def BDRV_SECTOR_SIZE_def
    by (rule header_fields) (use sec_lo fl_range in auto)
  have inside: "push_bit (BDRV_SECTOR_BITS c) (sector b) < 2 ^ 63"
    using sector_inside_device [OF sec_lo, of "BDRV_SECTOR_BITS c" "bdrv_getlength wr k"]
      sec_hi same_total len_bound by simp
  have bound: "0 \<le> hdr \<and> hdr < 2 ^ 63"
    unfolding hdr_def by (rule header_bound) (use sec_lo inside fl_range in auto)
  have s: "sint (word_of_int hdr :: 64 word) = hdr"
    using bound by (intro sint_header) auto
  have head: "sint (of_be64 (take 8 fr)) = hdr"
    by (simp add: fr length_be64 of_be64_be64 s)
  define f1 where "f1 = (mig_file wr)\<lparr>rd := [word_of_int (int (length name))] @ name @ payload @ rest\<rparr>"
  define f2 where "f2 = (mig_file wr)\<lparr>rd := name @ payload @ rest\<rparr>"
  define f3 where "f3 = (mig_file wr)\<lparr>rd := payload @ rest\<rparr>"
  define f5 where "f5 = (mig_file wr)\<lparr>rd := rest\<rparr>"
  have g1: "qemu_get_be64 (mig_file wr) = (hdr, f1)"
    using qemu_get_be64_frame [of "mig_file wr" "word_of_int hdr"
        "[word_of_int (int (length name))] @ name @ payload @ rest"] input fr s
    by (simp add: f1_def)
  have len: "uint (word_of_int (int (length name)) :: u8) = int (length name)"
    using name_len by (simp add: uint_nat unat_of_nat)
  have g2: "qemu_get_byte f1 = (int (length name), f2)"
    using qemu_get_byte_frame [of f1 "word_of_int (int (length name))" "name @ payload @ rest"] len
    by (simp add: f1_def f2_def)
  have g3: "qemu_get_buffer f2 (int (length name)) = (name, f3)"
    using qemu_get_buffer_enough [of f2 name "payload @ rest" "int (length name)"]
    by (simp add: f2_def f3_def)
  have tw: "takeWhile (\<lambda>ch. ch \<noteq> 0) name = name"
    using name_nul by (simp add: takeWhile_eq_all_conv) metis
  have T: "0 < T" using sec_lo sec_hi by (simp add: T_def)
  have Tr: "drop_bit (BDRV_SECTOR_BITS c) (bdrv_getlength wr k) = T"
    using same_total by (simp add: T_def)
  have zeroed: "buf_is_zeroed l \<noteq> 0 \<longrightarrow> ld_buf l = replicate (nat (BLOCK_SIZE c)) 0"
    and cached: "bs_prev l = Some k \<longrightarrow> ld_total_sectors l = T"
    using block_load_at_locals [OF reach] Tr by auto
  define l1 where "l1 = (if Some k \<noteq> bs_prev l
        then l\<lparr>bs_prev := Some k, ld_total_sectors := T\<rparr> else l)"
  have l1: "bs_prev l1 = Some k \<and> ld_total_sectors l1 = T
      \<and> buf_is_zeroed l1 = buf_is_zeroed l \<and> ld_buf l1 = ld_buf l"
    using cached by (auto simp add: l1_def)
  have nr: "(if T - sector b < BDRV_SECTORS_PER_DIRTY_CHUNK c then T - sector b
             else BDRV_SECTORS_PER_DIRTY_CHUNK c) = n"
    by (simp add: n_def min_def T_def)
  have all0: "buf b = replicate (nat (BLOCK_SIZE c)) 0" if "list_all (\<lambda>x. x = 0) (buf b)"
    using that buf_len replicate_eq_all [of "buf b" "nat (BLOCK_SIZE c)" 0] by simp
  have buffer: "block_load_buffer c fl l1 f3 = (l', f5)"
  proof (cases "list_all (\<lambda>x. x = 0) (buf b)")
    case True
    then have v: "fl = 9 \<and> payload = []" using zb by (simp add: fl_def payload_def)
    have "l1\<lparr>ld_buf := (if buf_is_zeroed l1 = 0 then replicate (nat (BLOCK_SIZE c)) 0
                           else ld_buf l1), buf_is_zeroed := 1\<rparr> = l'"
      using all0 [OF True] zeroed l1 True by (cases l1) (auto simp add: l'_def)
    then show ?thesis using v
      by (simp add: block_load_buffer_def BLK_MIG_FLAG_ZERO_BLOCK_def f3_def f5_def)
  next
    case False
    then have v: "fl = 1 \<and> payload = buf b" using zb buf_len by (simp add: fl_def payload_def)
    have g: "qemu_get_buffer f3 (BLOCK_SIZE c) = (buf b, f5)"
      using qemu_get_buffer_enough [of f3 "buf b" rest "BLOCK_SIZE c"] buf_len v
      by (simp add: f3_def f5_def)
    have "l1\<lparr>ld_buf := buf b, buf_is_zeroed := 0\<rparr> = l'"
      using l1 False by (cases l1) (auto simp add: l'_def)
    then show ?thesis using v g
      by (simp add: block_load_buffer_def BLK_MIG_FLAG_ZERO_BLOCK_def)
  qed
  have l1': "(if Some k \<noteq> bs_prev l
        then l\<lparr>bs_prev := Some k,
               ld_total_sectors := drop_bit (BDRV_SECTOR_BITS c) (bdrv_getlength wr k)\<rparr>
        else l) = l1"
    by (simp add: l1_def Tr)
  have bw: "bdrv_write c k (sector b) (buf b) n (wr\<lparr>mig_file := f5\<rparr>)
      = (write_ret (bdrv_states wr ! k), wr')"
    by (simp add: bdrv_write_def wr'_def f5_def)
  have err: "qemu_file_get_error (mig_file wr') = last_error (mig_file wr)"
    by (simp add: wr'_def qemu_file_get_error_def)
  have lb: "ld_buf l' = buf b" by (simp add: l'_def)
  have dev: "block_load_device_block c fl (sector b) l f1 wr =
      (if write_ret (bdrv_states wr ! k) < 0 then Inl (write_ret (bdrv_states wr ! k))
               else if last_error (mig_file wr) \<noteq> 0 then Inl (last_error (mig_file wr))
               else Inr (fl, l'), wr')"
  proof (cases "T - sector b < BDRV_SECTORS_PER_DIRTY_CHUNK c")
    case True
    then have "T - sector b = n" using nr by simp
    then show ?thesis using T True bw err
      by (simp add: block_load_device_block_def g2 g3 tw found Tr l1' Let_def l1 buffer lb)
  next
    case False
    then have "BDRV_SECTORS_PER_DIRTY_CHUNK c = n" using nr by simp
    then show ?thesis using T False bw err
      by (simp add: block_load_device_block_def g2 g3 tw found Tr l1' Let_def l1 buffer lb)
  qed
  have db: "fl AND BLK_MIG_FLAG_DEVICE_BLOCK \<noteq> 0"
    by (simp add: fl_def BLK_MIG_FLAG_DEVICE_BLOCK_def)
  have res: "block_load_frame c l wr =
      (if write_ret (bdrv_states wr ! k) < 0 then Inl (write_ret (bdrv_states wr ! k))
               else if last_error (mig_file wr) \<noteq> 0 then Inl (last_error (mig_file wr))
               else Inr (fl, l'), wr')"
    using fields dev db by (simp add: block_load_frame_def g1 Let_def)
  have eos: "fl AND BLK_MIG_FLAG_EOS = 0" by (simp add: fl_def BLK_MIG_FLAG_EOS_def)
  have nxt: "block_load_at c w0 l' wr'"
    if "0 \<le> write_ret (bdrv_states wr ! k) \<and> last_error (mig_file wr) = 0"
  proof (rule block_load_at.next_frame [OF reach _ eos])
    show "block_load_frame c l wr = (Inr (fl, l'), wr')" using res that by simp
  qed
  have zeros: "list_all (\<lambda>x. x = 0) (buf b)
      \<longrightarrow> list_all (\<lambda>x. x = 0) (take (nat (n * BDRV_SECTOR_SIZE c)) (buf b))"
    by (auto simp add: list_all_iff dest: in_set_takeD)
  show ?thesis
    unfolding Let_def fl_flags
    using res nxt zeros fields head by (simp add: l'_def wr'_def T_def)
qed


lemma receiver_sample_runs:
  "data_frame \<noteq> [] \<and> zero_frame \<noteq> [] \<and> 0 \<notin> set (device_name hda)
   \<and> bdrv_find receiver_world (device_name hda) = Some 0
   \<and> fst (the (block_load small_consts receiver_world)) = 0
   \<and> written (bdrv_states (snd (the (block_load small_consts receiver_world))) ! 0)
       = [(2, 1, replicate 16 7), (0, 2, replicate 32 0)]"
  by code_simp

theorem frame_round_trip_witness:
  "block_load_frame small_consts receiver_locals receiver_world
     = (Inr (1, locals_after_data), receiver_after_data)
   \<and> written (bdrv_states receiver_after_data ! 0) = [(2, 1, replicate 16 7)]
   \<and> rd (mig_file receiver_after_data) = zero_frame @ be64 2
   \<and> block_load_frame small_consts locals_after_data receiver_after_data
     = (Inr (9, \<lparr>bs_prev = Some 0, ld_total_sectors = 3, ld_buf = replicate 32 0,
                  buf_is_zeroed = 1\<rparr>), receiver_after_zero)
   \<and> written (bdrv_states receiver_after_zero ! 0)
       = [(2, 1, replicate 16 7), (0, 2, replicate 32 0)]
   \<and> rd (mig_file receiver_after_zero) = be64 2
   \<and> fst (the (block_load small_consts receiver_world)) = 0
   \<and> written (bdrv_states (snd (the (block_load small_consts receiver_world))) ! 0)
       = [(2, 1, replicate 16 7), (0, 2, replicate 32 0)]"
proof -
  have bits: "4 \<le> BDRV_SECTOR_BITS small_consts" by (simp add: small_consts_def)
  have name_len: "length (device_name hda) < 256" by (simp add: hda_def)
  have name_nul: "0 \<notin> set (device_name hda)" using receiver_sample_runs by simp
  have ss: "BDRV_SECTOR_SIZE small_consts = 16" by (simp add: BDRV_SECTOR_SIZE_def small_consts_def)
  have buf_len: "int (length (buf data_chunk)) = BLOCK_SIZE small_consts"
    by (simp add: small_consts_def data_chunk_def BLOCK_SIZE_def)
  have name: "device_name hda
      = device_name (bdrv_states sample_world ! bs (bmds_list sample_world ! bmds data_chunk))"
    by (simp add: sample_world_def hda_cursor_def data_chunk_def)
  have frame: "wire (mig_file (blk_send small_consts data_chunk sample_world))
      = wire (mig_file sample_world) @ data_frame"
    by (simp add: data_frame_def sample_world_def idle_file_def)
  have emitted: "data_frame \<noteq> []" using receiver_sample_runs by simp
  have found: "bdrv_find receiver_world (device_name hda) = Some 0"
    using receiver_sample_runs by simp
  have same_total: "total_sectors (bmds_list sample_world ! bmds data_chunk)
      = drop_bit (BDRV_SECTOR_BITS small_consts) (bdrv_getlength receiver_world 0)"
    by (simp add: sample_world_def hda_cursor_def data_chunk_def receiver_world_def
        bdrv_getlength_def hda_def small_consts_def drop_bit_eq_div)
  have len_bound: "bdrv_getlength receiver_world 0 < 2 ^ 63"
    by (simp add: receiver_world_def sample_world_def bdrv_getlength_def hda_def)
  have sec_lo: "0 \<le> sector data_chunk" by (simp add: data_chunk_def)
  have sec_hi: "sector data_chunk < total_sectors (bmds_list sample_world ! bmds data_chunk)"
    by (simp add: sample_world_def hda_cursor_def data_chunk_def)
  have reach: "block_load_at small_consts receiver_world receiver_locals receiver_world"
    unfolding receiver_locals_def by (rule block_load_at.entry)
  have input: "rd (mig_file receiver_world) = data_frame @ (zero_frame @ be64 2)"
    by (simp add: receiver_world_def sample_world_def idle_file_def)
  have n: "(1::int) = min (BDRV_SECTORS_PER_DIRTY_CHUNK small_consts)
      (total_sectors (bmds_list sample_world ! bmds data_chunk) - sector data_chunk)"
    by (simp add: sample_world_def hda_cursor_def data_chunk_def small_consts_def)
  have ok: "0 \<le> write_ret (bdrv_states receiver_world ! 0)
      \<and> last_error (mig_file receiver_world) = 0"
    by (simp add: receiver_world_def sample_world_def hda_def idle_file_def)
  have nz: "\<not> list_all (\<lambda>x. x = 0) (buf data_chunk)" by (simp add: data_chunk_def list_all_iff)
  define w1 where "w1 = receiver_world\<lparr>bdrv_states := (bdrv_states receiver_world)
      [0 := (bdrv_states receiver_world ! 0)
         \<lparr>written := written (bdrv_states receiver_world ! 0) @ [(2, 1, replicate 16 7)]\<rparr>],
      mig_file := (mig_file receiver_world)\<lparr>rd := zero_frame @ be64 2\<rparr>\<rparr>"
  have first: "block_load_frame small_consts receiver_locals receiver_world
        = (Inr (1, locals_after_data), w1)
      \<and> block_load_at small_consts receiver_world locals_after_data w1"
    using frame_round_trip [OF bits buf_len name name_len name_nul frame emitted found
        same_total len_bound sec_lo sec_hi reach input n] ok nz
    by (simp add: Let_def w1_def locals_after_data_def BLK_MIG_FLAG_DEVICE_BLOCK_def
        data_chunk_def sample_world_def hda_cursor_def ss)
  then have w1: "receiver_after_data = w1" by (simp add: receiver_after_data_def)
  have buf_len2: "int (length (buf zero_chunk)) = BLOCK_SIZE small_consts"
    by (simp add: small_consts_def zero_chunk_def BLOCK_SIZE_def)
  have name2: "device_name hda
      = device_name (bdrv_states bulk_done_world ! bs (bmds_list bulk_done_world ! bmds zero_chunk))"
    by (simp add: bulk_done_world_def sample_world_def hda_cursor_def zero_chunk_def)
  have frame2: "wire (mig_file (blk_send small_consts zero_chunk bulk_done_world))
      = wire (mig_file bulk_done_world) @ zero_frame"
    by (simp add: zero_frame_def bulk_done_world_def sample_world_def idle_file_def)
  have emitted2: "zero_frame \<noteq> []" using receiver_sample_runs by simp
  have found2: "bdrv_find w1 (device_name hda) = Some 0"
    by (simp add: w1_def bdrv_find_def receiver_world_def sample_world_def)
  have same_total2: "total_sectors (bmds_list bulk_done_world ! bmds zero_chunk)
      = drop_bit (BDRV_SECTOR_BITS small_consts) (bdrv_getlength w1 0)"
    by (simp add: w1_def bulk_done_world_def sample_world_def hda_cursor_def zero_chunk_def
        receiver_world_def bdrv_getlength_def hda_def small_consts_def drop_bit_eq_div)
  have len_bound2: "bdrv_getlength w1 0 < 2 ^ 63"
    by (simp add: w1_def receiver_world_def sample_world_def bdrv_getlength_def hda_def)
  have sec_lo2: "0 \<le> sector zero_chunk" by (simp add: zero_chunk_def)
  have sec_hi2: "sector zero_chunk < total_sectors (bmds_list bulk_done_world ! bmds zero_chunk)"
    by (simp add: bulk_done_world_def sample_world_def hda_cursor_def zero_chunk_def)
  have reach2: "block_load_at small_consts receiver_world locals_after_data w1"
    using first by simp
  have input2: "rd (mig_file w1) = zero_frame @ be64 2" by (simp add: w1_def)
  have n2: "(2::int) = min (BDRV_SECTORS_PER_DIRTY_CHUNK small_consts)
      (total_sectors (bmds_list bulk_done_world ! bmds zero_chunk) - sector zero_chunk)"
    by (simp add: bulk_done_world_def sample_world_def hda_cursor_def zero_chunk_def small_consts_def)
  have ok2: "0 \<le> write_ret (bdrv_states w1 ! 0) \<and> last_error (mig_file w1) = 0"
    by (simp add: w1_def receiver_world_def sample_world_def hda_def idle_file_def)
  have az: "list_all (\<lambda>x. x = 0) (buf zero_chunk)" by (simp add: zero_chunk_def list_all_iff)
  define w2 where "w2 = w1\<lparr>bdrv_states := (bdrv_states w1)
      [0 := (bdrv_states w1 ! 0)
         \<lparr>written := written (bdrv_states w1 ! 0) @ [(0, 2, replicate 32 0)]\<rparr>],
      mig_file := (mig_file w1)\<lparr>rd := be64 2\<rparr>\<rparr>"
  have second: "block_load_frame small_consts locals_after_data w1
        = (Inr (9, \<lparr>bs_prev = Some 0, ld_total_sectors = 3, ld_buf = replicate 32 0,
                  buf_is_zeroed = 1\<rparr>), w2)"
    using frame_round_trip [OF bits buf_len2 name2 name_len name_nul frame2 emitted2 found2
        same_total2 len_bound2 sec_lo2 sec_hi2 reach2 input2 n2] ok2 az
    by (simp add: Let_def w2_def BLK_MIG_FLAG_DEVICE_BLOCK_def BLK_MIG_FLAG_ZERO_BLOCK_def
        zero_chunk_def bulk_done_world_def sample_world_def hda_cursor_def ss)
  then have w2: "receiver_after_zero = w2" by (simp add: receiver_after_zero_def w1)
  have wr1: "written (bdrv_states w1 ! 0) = [(2, 1, replicate 16 7)]"
    by (simp add: w1_def receiver_world_def sample_world_def hda_def)
  have wr2: "written (bdrv_states w2 ! 0) = [(2, 1, replicate 16 7), (0, 2, replicate 32 0)]"
    using wr1 by (simp add: w2_def w1_def receiver_world_def sample_world_def)
  show ?thesis
    using first second wr1 wr2 receiver_sample_runs
    by (simp add: w1 w2) (simp add: w1_def w2_def)
qed


end
